theory Spec2Isabelle
  imports Main "HOL-Library.Sublist"
begin

section \<open>The platform: strings, JSON values and the built-in functions the code calls\<close>

text \<open>
  A JavaScript string is modelled as a \<^typ>\<open>string\<close> holding its UTF-8 bytes. The code
  only compares strings with ASCII patterns (\<^verbatim>\<open>startsWith("http")\<close>, \<^verbatim>\<open>split(",")\<close>, the
  newline byte), and an ASCII byte never occurs inside a multi-byte UTF-8 sequence, so
  these operations agree on bytes and on code units.

  A JSON value is what \<^verbatim>\<open>JSON.parse\<close> returns. A number keeps its lexeme (no claim
  computes with a parsed number), an object keeps its members in source order.
\<close>

datatype json =
    JNull
  | JBool bool
  | JNumber string
  | JString string
  | JArray "json list"
  | JObject "(string \<times> json) list"

subsection \<open>\<^verbatim>\<open>JSON.parse\<close>: the grammar of ECMA-404\<close>

definition is_ws :: "char \<Rightarrow> bool" where
  "is_ws c = (c = CHR '' '' \<or> c = CHR 0x09 \<or> c = CHR 0x0A \<or> c = CHR 0x0D)"

definition skip_ws :: "string \<Rightarrow> string" where
  "skip_ws s = dropWhile is_ws s"

definition is_digit :: "char \<Rightarrow> bool" where
  "is_digit c = (48 \<le> (of_char c :: nat) \<and> (of_char c :: nat) \<le> 57)"

definition hex_digit :: "char \<Rightarrow> nat option" where
  "hex_digit c =
     (let n = (of_char c :: nat) in
      if 48 \<le> n \<and> n \<le> 57 then Some (n - 48)
      else if 65 \<le> n \<and> n \<le> 70 then Some (n - 55)
      else if 97 \<le> n \<and> n \<le> 102 then Some (n - 87)
      else None)"

text \<open>The bytes that stand for one UTF-16 code unit written as a \<^verbatim>\<open>\uXXXX\<close> escape.\<close>

definition utf8_of_unit :: "nat \<Rightarrow> string" where
  "utf8_of_unit u =
     (if u < 0x80 then [char_of u]
      else if u < 0x800 then [char_of (0xC0 + u div 64), char_of (0x80 + u mod 64)]
      else [char_of (0xE0 + u div 4096), char_of (0x80 + (u div 64) mod 64),
            char_of (0x80 + u mod 64)])"

definition unescape :: "char \<Rightarrow> char option" where
  "unescape e =
     (if e = CHR 0x22 then Some (CHR 0x22)
      else if e = CHR 0x5C then Some (CHR 0x5C)
      else if e = CHR ''/'' then Some (CHR ''/'')
      else if e = CHR ''b'' then Some (CHR 0x08)
      else if e = CHR ''f'' then Some (CHR 0x0C)
      else if e = CHR ''n'' then Some (CHR 0x0A)
      else if e = CHR ''r'' then Some (CHR 0x0D)
      else if e = CHR ''t'' then Some (CHR 0x09)
      else None)"

definition hex4 :: "char \<Rightarrow> char \<Rightarrow> char \<Rightarrow> char \<Rightarrow> nat option" where
  "hex4 a b c d =
     (case (hex_digit a, hex_digit b, hex_digit c, hex_digit d) of
        (Some x, Some y, Some z, Some w) \<Rightarrow> Some (((x * 16 + y) * 16 + z) * 16 + w)
      | _ \<Rightarrow> None)"

text \<open>The characters of a string literal after its opening quote, up to the closing one.\<close>

fun string_body :: "string \<Rightarrow> string \<Rightarrow> (string \<times> string) option" where
  "string_body [] acc = None"
| "string_body (c # cs) acc =
     (if c = CHR 0x22 then Some (acc, cs)
      else if c = CHR 0x5C then
        (case cs of
           [] \<Rightarrow> None
         | e # cs' \<Rightarrow>
             if e = CHR ''u'' then
               (case cs' of
                  a # b # c' # d # rest \<Rightarrow>
                    (case hex4 a b c' d of
                       None \<Rightarrow> None
                     | Some u \<Rightarrow> string_body rest (acc @ utf8_of_unit u))
                | _ \<Rightarrow> None)
             else
               (case unescape e of
                  None \<Rightarrow> None
                | Some ch \<Rightarrow> string_body cs' (acc @ [ch])))
      else if (of_char c :: nat) < 0x20 then None
      else string_body cs (acc @ [c]))"

definition digits :: "string \<Rightarrow> string \<times> string" where
  "digits s = (takeWhile is_digit s, dropWhile is_digit s)"

definition number_int :: "string \<Rightarrow> (string \<times> string) option" where
  "number_int s =
     (case s of
        [] \<Rightarrow> None
      | c # cs \<Rightarrow>
          if c = CHR ''0'' then Some ([c], cs)
          else if is_digit c then Some (c # fst (digits cs), snd (digits cs))
          else None)"

definition number_frac :: "string \<Rightarrow> (string \<times> string) option" where
  "number_frac s =
     (case s of
        [] \<Rightarrow> Some ([], s)
      | c # cs \<Rightarrow>
          if c = CHR ''.'' then
            (if fst (digits cs) = [] then None
             else Some (c # fst (digits cs), snd (digits cs)))
          else Some ([], s))"

definition number_exp :: "string \<Rightarrow> (string \<times> string) option" where
  "number_exp s =
     (case s of
        [] \<Rightarrow> Some ([], s)
      | c # cs \<Rightarrow>
          if c = CHR ''e'' \<or> c = CHR ''E'' then
            (let (sg, r) =
                   (case cs of
                      [] \<Rightarrow> ([], cs)
                    | d # ds \<Rightarrow> if d = CHR ''+'' \<or> d = CHR ''-'' then ([d], ds) else ([], cs))
             in if fst (digits r) = [] then None
                else Some (c # sg @ fst (digits r), snd (digits r)))
          else Some ([], s))"

definition number :: "string \<Rightarrow> (string \<times> string) option" where
  "number s =
     (let (sg, r0) =
            (case s of
               [] \<Rightarrow> ([], s)
             | c # cs \<Rightarrow> if c = CHR ''-'' then ([c], cs) else ([], s))
      in case number_int r0 of
           None \<Rightarrow> None
         | Some (i, r1) \<Rightarrow>
             (case number_frac r1 of
                None \<Rightarrow> None
              | Some (f, r2) \<Rightarrow>
                  (case number_exp r2 of
                     None \<Rightarrow> None
                   | Some (e, r3) \<Rightarrow> Some (sg @ i @ f @ e, r3))))"

definition literal :: "string \<Rightarrow> (json \<times> string) option" where
  "literal s =
     (if take 4 s = ''true'' then Some (JBool True, drop 4 s)
      else if take 5 s = ''false'' then Some (JBool False, drop 5 s)
      else if take 4 s = ''null'' then Some (JNull, drop 4 s)
      else None)"

text \<open>
  Recursive descent. The first argument bounds the depth of the calls; a call needs no
  more of it than the characters it consumes, so the bound \<open>2 * length s + 2\<close> that
  \<open>JSON_parse\<close> gives is never the reason for a failure (\<open>JSON_parse_any_fuel\<close> below).
\<close>

fun parse_value :: "nat \<Rightarrow> string \<Rightarrow> (json \<times> string) option"
and parse_elements :: "nat \<Rightarrow> string \<Rightarrow> json list \<Rightarrow> (json \<times> string) option"
and parse_members :: "nat \<Rightarrow> string \<Rightarrow> (string \<times> json) list \<Rightarrow> (json \<times> string) option"
where
  "parse_value 0 s = None"
| "parse_value (Suc n) s =
     (case skip_ws s of
        [] \<Rightarrow> None
      | c # cs \<Rightarrow>
          if c = CHR ''{'' then
            (case skip_ws cs of
               [] \<Rightarrow> None
             | d # ds \<Rightarrow> if d = CHR ''}'' then Some (JObject [], ds) else parse_members n cs [])
          else if c = CHR ''['' then
            (case skip_ws cs of
               [] \<Rightarrow> None
             | d # ds \<Rightarrow> if d = CHR '']'' then Some (JArray [], ds) else parse_elements n cs [])
          else if c = CHR 0x22 then
            (case string_body cs [] of
               None \<Rightarrow> None
             | Some (str, r) \<Rightarrow> Some (JString str, r))
          else if c = CHR ''-'' \<or> is_digit c then
            (case number (c # cs) of
               None \<Rightarrow> None
             | Some (lx, r) \<Rightarrow> Some (JNumber lx, r))
          else literal (c # cs))"
| "parse_elements 0 s acc = None"
| "parse_elements (Suc n) s acc =
     (case parse_value n s of
        None \<Rightarrow> None
      | Some (v, r) \<Rightarrow>
          (case skip_ws r of
             [] \<Rightarrow> None
           | c # cs \<Rightarrow>
               if c = CHR '','' then parse_elements n cs (acc @ [v])
               else if c = CHR '']'' then Some (JArray (acc @ [v]), cs)
               else None))"
| "parse_members 0 s acc = None"
| "parse_members (Suc n) s acc =
     (case skip_ws s of
        [] \<Rightarrow> None
      | q # qs \<Rightarrow>
          if q \<noteq> CHR 0x22 then None
          else
            (case string_body qs [] of
               None \<Rightarrow> None
             | Some (k, r) \<Rightarrow>
                 (case skip_ws r of
                    [] \<Rightarrow> None
                  | c # cs \<Rightarrow>
                      if c \<noteq> CHR '':'' then None
                      else
                        (case parse_value n cs of
                           None \<Rightarrow> None
                         | Some (v, r') \<Rightarrow>
                             (case skip_ws r' of
                                [] \<Rightarrow> None
                              | d # ds \<Rightarrow>
                                  if d = CHR '','' then parse_members n ds (acc @ [(k, v)])
                                  else if d = CHR ''}'' then Some (JObject (acc @ [(k, v)]), ds)
                                  else None)))))"

text \<open>\<^verbatim>\<open>JSON.parse(text)\<close>; \<open>None\<close> is the \<^verbatim>\<open>SyntaxError\<close> it throws.\<close>

definition JSON_parse :: "string \<Rightarrow> json option" where
  "JSON_parse s =
     (case parse_value (2 * length s + 2) s of
        None \<Rightarrow> None
      | Some (v, r) \<Rightarrow> if skip_ws r = [] then Some v else None)"

text \<open>
  \<open>enough f s x r\<close>: the parser \<open>f\<close> returns \<open>x\<close>, leaving \<open>r\<close> of the input
  \<open>s\<close>, for every bound that is at least the number of characters consumed.
\<close>

definition enough :: "(nat \<Rightarrow> 'a option) \<Rightarrow> string \<Rightarrow> 'a \<Rightarrow> string \<Rightarrow> bool" where
  "enough f s x r = (length r < length s \<and> (\<forall>m. length s - length r \<le> m \<longrightarrow> f m = Some x))"

text \<open>A string in double quotes, for writing JSON texts.\<close>

definition quoted :: "string \<Rightarrow> string" where
  "quoted s = CHR 0x22 # s @ [CHR 0x22]"

subsection \<open>\<^verbatim>\<open>String.prototype.startsWith\<close> and \<^verbatim>\<open>split\<close>\<close>

definition startsWith :: "string \<Rightarrow> string \<Rightarrow> bool" where
  "startsWith s p = (take (length p) s = p)"

text \<open>\<^verbatim>\<open>s.split(d)\<close> for a one-character separator: \<^verbatim>\<open>"".split(",")\<close> is \<^verbatim>\<open>[""]\<close>.\<close>

fun split_from :: "char \<Rightarrow> string \<Rightarrow> string \<Rightarrow> string list" where
  "split_from d cur [] = [cur]"
| "split_from d cur (c # cs) =
     (if c = d then cur # split_from d [] cs else split_from d (cur @ [c]) cs)"

definition split :: "string \<Rightarrow> char \<Rightarrow> string list" where
  "split s d = split_from d [] s"

subsection \<open>\<^verbatim>\<open>Array.prototype.join\<close>\<close>

fun join :: "string list \<Rightarrow> char \<Rightarrow> string" where
  "join [] d = []"
| "join [x] d = x"
| "join (x # y # ys) d = x @ d # join (y # ys) d"

subsection \<open>\<^verbatim>\<open>decodeURIComponent\<close>\<close>

text \<open>
  Every \<^verbatim>\<open>%\<close> must start an escape \<^verbatim>\<open>%XX\<close> with two hexadecimal digits, and the
  escaped bytes must be well-formed UTF-8 (no stray continuation byte, no overlong form,
  no surrogate, nothing above U+10FFFF); otherwise the function throws \<^verbatim>\<open>URIError\<close>,
  which is \<open>None\<close> here. Characters outside escapes are copied.
\<close>

datatype uri_item = Lit char | Pct nat

fun uri_items :: "string \<Rightarrow> uri_item list option" where
  "uri_items [] = Some []"
| "uri_items (c # cs) =
     (if c = CHR ''%'' then
        (case cs of
           a # b # rest \<Rightarrow>
             (case (hex_digit a, hex_digit b) of
                (Some x, Some y) \<Rightarrow> map_option ((#) (Pct (16 * x + y))) (uri_items rest)
              | _ \<Rightarrow> None)
         | _ \<Rightarrow> None)
      else map_option ((#) (Lit c)) (uri_items cs))"

definition is_cont :: "nat \<Rightarrow> bool" where
  "is_cont b = (0x80 \<le> b \<and> b < 0xC0)"

fun utf8_items :: "uri_item list \<Rightarrow> string option" where
  "utf8_items [] = Some []"
| "utf8_items (Lit c # r) = map_option ((#) c) (utf8_items r)"
| "utf8_items (Pct B # r) =
     (if B < 0x80 then map_option ((#) (char_of B)) (utf8_items r)
      else if B < 0xC2 then None
      else if B < 0xE0 then
        (case r of
           Pct b1 # r1 \<Rightarrow>
             if is_cont b1
             then map_option ((@) [char_of B, char_of b1]) (utf8_items r1)
             else None
         | _ \<Rightarrow> None)
      else if B < 0xF0 then
        (case r of
           Pct b1 # Pct b2 # r2 \<Rightarrow>
             (let v = (B - 0xE0) * 4096 + (b1 - 0x80) * 64 + (b2 - 0x80) in
              if is_cont b1 \<and> is_cont b2 \<and> 0x800 \<le> v \<and> \<not> (0xD800 \<le> v \<and> v \<le> 0xDFFF)
              then map_option ((@) [char_of B, char_of b1, char_of b2]) (utf8_items r2)
              else None)
         | _ \<Rightarrow> None)
      else if B < 0xF8 then
        (case r of
           Pct b1 # Pct b2 # Pct b3 # r3 \<Rightarrow>
             (let v = (B - 0xF0) * 262144 + (b1 - 0x80) * 4096 + (b2 - 0x80) * 64 + (b3 - 0x80) in
              if is_cont b1 \<and> is_cont b2 \<and> is_cont b3 \<and> 0x10000 \<le> v \<and> v \<le> 0x10FFFF
              then map_option ((@) [char_of B, char_of b1, char_of b2, char_of b3]) (utf8_items r3)
              else None)
         | _ \<Rightarrow> None)
      else None)"

definition decodeURIComponent :: "string \<Rightarrow> string option" where
  "decodeURIComponent s = (case uri_items s of None \<Rightarrow> None | Some its \<Rightarrow> utf8_items its)"

subsection \<open>\<^verbatim>\<open>parseInt\<close> with no radix\<close>

text \<open>
  Leading white space is skipped, a sign is read, a prefix \<^verbatim>\<open>0x\<close> selects radix 16, and
  the longest run of digits is the value; no digit at all gives \<^verbatim>\<open>NaN\<close>, which is \<open>None\<close>.
  The result is the exact integer (a JavaScript number holds it exactly below \<open>2^53\<close>).
\<close>

definition is_js_space :: "char \<Rightarrow> bool" where
  "is_js_space c = (let n = (of_char c :: nat) in (9 \<le> n \<and> n \<le> 13) \<or> n = 32)"

definition radix_digit :: "nat \<Rightarrow> char \<Rightarrow> bool" where
  "radix_digit R c = (case hex_digit c of None \<Rightarrow> False | Some v \<Rightarrow> v < R)"

definition radix_value :: "nat \<Rightarrow> string \<Rightarrow> nat" where
  "radix_value R z = foldl (\<lambda>n c. n * R + (case hex_digit c of None \<Rightarrow> 0 | Some v \<Rightarrow> v)) 0 z"

definition parseInt :: "string \<Rightarrow> int option" where
  "parseInt inputString =
     (let S = dropWhile is_js_space inputString;
          sign = (if take 1 S = ''-'' then - 1 else 1 :: int);
          S1 = (if take 1 S = ''+'' \<or> take 1 S = ''-'' then drop 1 S else S);
          R = (if take 2 S1 = ''0x'' \<or> take 2 S1 = ''0X'' then 16 else 10 :: nat);
          S2 = (if R = 16 then drop 2 S1 else S1);
          Z = takeWhile (radix_digit R) S2
      in if Z = [] then None else Some (sign * int (radix_value R Z)))"

subsection \<open>\<^verbatim>\<open>Date\<close>\<close>

text \<open>
  A time value is a number of milliseconds since the epoch, or \<^verbatim>\<open>NaN\<close> (\<open>None\<close>).
  \<^verbatim>\<open>new Date(string)\<close> is left to the implementation for everything but two formats, so
  the functions below take it as the parameter \<open>Date_parse\<close>.

  \<^verbatim>\<open>setUTCMilliseconds(ms)\<close> keeps the date, hour, minute and second of the time value
  and takes \<^verbatim>\<open>ms\<close> as the milliseconds; the result is \<^verbatim>\<open>NaN\<close> when either is \<^verbatim>\<open>NaN\<close> or the
  result leaves the range of time values (\<^verbatim>\<open>TimeClip\<close>).
\<close>

definition TimeClip :: "int \<Rightarrow> int option" where
  "TimeClip t = (if \<bar>t\<bar> > 8640000000000000 then None else Some t)"

definition setUTCMilliseconds :: "int option \<Rightarrow> int option \<Rightarrow> int option" where
  "setUTCMilliseconds t ms =
     (case t of
        None \<Rightarrow> None
      | Some tv \<Rightarrow>
          (case ms of
             None \<Rightarrow> None
           | Some milli \<Rightarrow> TimeClip (tv - tv mod 1000 + milli)))"

section \<open>Responses and errors\<close>

text \<open>
  A response of the transport, with its body fully received: the status, the headers by
  lower-case name (\<^verbatim>\<open>headers.get\<close> gives \<^verbatim>\<open>null\<close> for an absent one) and the
  body as the chunks its reader delivers (\<open>None\<close>: the response has no body stream).
\<close>

record response =
  status :: nat
  headers :: "string \<rightharpoonup> string"
  body :: "string list option"

definition ok :: "response \<Rightarrow> bool" where
  "ok r = (200 \<le> status r \<and> status r \<le> 299)"

definition response_text :: "response \<Rightarrow> string" where
  "response_text r = (case body r of None \<Rightarrow> [] | Some chunks \<Rightarrow> concat chunks)"

text \<open>
  What the code throws. An error object carries the argument its constructor was given
  (the variable \<^verbatim>\<open>text\<close> of \<^verbatim>\<open>catchResponseErrors\<close> holds any JSON value once it has
  been replaced by a \<^verbatim>\<open>message\<close> member). \<open>NonErrorValue\<close> is a thrown value that is not
  an instance of \<^verbatim>\<open>Error\<close>; only a callback can throw one.
\<close>

datatype error =
    GraffitiErrorNotFound json
  | GraffitiErrorForbidden json
  | GraffitiErrorUnauthorized json
  | GraffitiErrorPatchError json
  | GraffitiErrorInvalidSchema json
  | GraffitiErrorPatchTestFailed json
  | GraffitiErrorSchemaMismatch json
  | Error json
  | SyntaxError
  | TypeError
  | URIError
  | NonErrorValue

section \<open>The response parsers\<close>

text \<open>
  Lines 19 to 25 of \<^verbatim>\<open>catchResponseErrors\<close>: the body text, replaced by the member
  \<^verbatim>\<open>message\<close> when the text parses to a value that has one. \<^verbatim>\<open>"message" in error\<close> is
  false for an array, and throws for a value that is not an object, which the empty
  \<^verbatim>\<open>catch\<close> swallows. Of two members with the same name \<^verbatim>\<open>JSON.parse\<close> keeps the last.
\<close>

definition message_text :: "string \<Rightarrow> json" where
  "message_text t =
     (case JSON_parse t of
        Some (JObject members) \<Rightarrow>
          (case map_of (rev members) ''message'' of
             Some m \<Rightarrow> m
           | None \<Rightarrow> JString t)
      | _ \<Rightarrow> JString t)"

text \<open>\<^verbatim>\<open>text.startsWith(p)\<close> on that variable: a \<^verbatim>\<open>TypeError\<close> when it is not a string.\<close>

definition text_startsWith :: "json \<Rightarrow> string \<Rightarrow> error + bool" where
  "text_startsWith t p = (case t of JString s \<Rightarrow> Inr (startsWith s p) | _ \<Rightarrow> Inl TypeError)"

definition catchResponseErrors :: "response \<Rightarrow> error + unit" where
  "catchResponseErrors r =
     (if ok r then Inr ()
      else if status r = 410 then Inr ()
      else
        (let t = message_text (response_text r) in
         if status r = 404 then Inl (GraffitiErrorNotFound t)
         else if status r = 403 then Inl (GraffitiErrorForbidden t)
         else if status r = 401 then Inl (GraffitiErrorUnauthorized t)
         else if status r = 422 then
           (case text_startsWith t ''PatchError'' of
              Inl e \<Rightarrow> Inl e
            | Inr True \<Rightarrow> Inl (GraffitiErrorPatchError t)
            | Inr False \<Rightarrow>
                (case text_startsWith t ''InvalidSchema'' of
                   Inl e \<Rightarrow> Inl e
                 | Inr True \<Rightarrow> Inl (GraffitiErrorInvalidSchema t)
                 | Inr False \<Rightarrow> Inl (Error t)))
         else if status r = 412 then
           (case text_startsWith t ''PatchTestFailed'' of
              Inl e \<Rightarrow> Inl e
            | Inr True \<Rightarrow> Inl (GraffitiErrorPatchTestFailed t)
            | Inr False \<Rightarrow>
                (case text_startsWith t ''SchemaMismatch'' of
                   Inl e \<Rightarrow> Inl e
                 | Inr True \<Rightarrow> Inl (GraffitiErrorSchemaMismatch t)
                 | Inr False \<Rightarrow> Inl (Error t)))
         else Inl (Error t)))"

text \<open>
  The result is \<^verbatim>\<open>string[] | T\<close>: \<open>Inl\<close> the decoded array, \<open>Inr\<close> the \<^verbatim>\<open>nullValue\<close>.
  \<^verbatim>\<open>filter((s) => s)\<close> drops the empty strings.
\<close>

definition parseEncodedStringArrayHeader ::
  "string option \<Rightarrow> 't \<Rightarrow> error + (string list + 't)" where
  "parseEncodedStringArrayHeader header nullValue =
     (case header of
        None \<Rightarrow> Inr (Inr nullValue)
      | Some h \<Rightarrow>
          (case those (map decodeURIComponent (filter (\<lambda>s. s \<noteq> []) (split h CHR '','' ))) of
             None \<Rightarrow> Inl URIError
           | Some decoded \<Rightarrow> Inr (Inl decoded)))"

record location =
  actor :: string
  source :: string
  name :: string

record graffiti_object = location +
  tombstone :: bool
  value' :: json
  channels :: "string list"
  allowed :: "string list option"
  lastModified :: int

definition parseGraffitiObjectResponse ::
  "(string \<Rightarrow> int option) \<Rightarrow> response \<Rightarrow> location \<Rightarrow> bool \<Rightarrow> error + graffiti_object" where
  "parseGraffitiObjectResponse Date_parse r loc isGet =
     (case catchResponseErrors r of
        Inl e \<Rightarrow> Inl e
      | Inr _ \<Rightarrow>
     (case JSON_parse (response_text r) of
        None \<Rightarrow> Inl (Error (JString ''Received invalid JSON response from server''))
      | Some v \<Rightarrow>
     (case headers r ''last-modified'' of
        None \<Rightarrow> Inl (Error (JString ''Received response from server without Last-Modified header''))
      | Some lastModifiedGMT \<Rightarrow>
     if lastModifiedGMT = [] then
       Inl (Error (JString ''Received response from server without Last-Modified header''))
     else
     (case headers r ''last-modified-ms'' of
        None \<Rightarrow> Inl (Error (JString ''Received response from server without Last-Modified-Ms header''))
      | Some lastModifiedMs \<Rightarrow>
     if lastModifiedMs = [] then
       Inl (Error (JString ''Received response from server without Last-Modified-Ms header''))
     else
     (case setUTCMilliseconds (Date_parse lastModifiedGMT) (parseInt lastModifiedMs) of
        None \<Rightarrow> Inl (Error (JString ''Received response from server with invalid Last-Modified header''))
      | Some lm \<Rightarrow>
     (case parseEncodedStringArrayHeader (headers r ''channels'') [] of
        Inl e \<Rightarrow> Inl e
      | Inr chs \<Rightarrow>
     (case parseEncodedStringArrayHeader (headers r ''allowed'') () of
        Inl e \<Rightarrow> Inl e
      | Inr alw \<Rightarrow>
          Inr \<lparr> actor = actor loc,
                source = source loc,
                name = name loc,
                tombstone = (\<not> isGet \<or> status r = 410),
                value' = v,
                channels = (case chs of Inl xs \<Rightarrow> xs | Inr nullValue \<Rightarrow> nullValue),
                allowed = (case alw of Inl xs \<Rightarrow> Some xs | Inr _ \<Rightarrow> None),
                lastModified = lm \<rparr>)))))))"

subsection \<open>The wire parser\<close>

text \<open>
  An element of a stream: \<^verbatim>\<open>{value}\<close>, or \<^verbatim>\<open>{error, source}\<close> for a failure reported in
  band. A stream is the elements the generator yields when it is consumed to its end,
  and the error it throws at that end, if any.
\<close>

datatype 'a stream_element = Value 'a | Failure error string

type_synonym 'a graffiti_stream = "'a stream_element list \<times> error option"

text \<open>\<^verbatim>\<open>e instanceof Error ? e : new Error()\<close>\<close>

definition as_Error :: "error \<Rightarrow> error" where
  "as_Error e = (if e = NonErrorValue then Error (JString []) else e)"

definition parseJSONLine ::
  "string \<Rightarrow> (json \<Rightarrow> error + 'a) \<Rightarrow> string \<Rightarrow> 'a stream_element" where
  "parseJSONLine line lineParser src =
     (case JSON_parse line of
        None \<Rightarrow> Failure (as_Error SyntaxError) src
      | Some j \<Rightarrow>
          (case lineParser j of
             Inl e \<Rightarrow> Failure (as_Error e) src
           | Inr v \<Rightarrow> Value v))"

text \<open>\<^verbatim>\<open>new TextDecoder().decode\<close>: strings are their UTF-8 bytes here.\<close>

definition decoder_decode :: "string \<Rightarrow> string" where
  "decoder_decode bytes = bytes"

definition newLineUint8 :: char where
  "newLineUint8 = CHR 0x0A"

text \<open>\<^verbatim>\<open>indexOf(x, start)\<close>, with \<open>None\<close> for \<^verbatim>\<open>-1\<close>, and \<^verbatim>\<open>slice\<close>.\<close>

definition indexOf :: "'a list \<Rightarrow> 'a \<Rightarrow> nat \<Rightarrow> nat option" where
  "indexOf xs x start =
     (if x \<in> set (drop start xs)
      then Some (start + length (takeWhile (\<lambda>y. y \<noteq> x) (drop start xs)))
      else None)"

definition slice :: "'a list \<Rightarrow> nat \<Rightarrow> nat \<Rightarrow> 'a list" where
  "slice xs start stop = take (stop - start) (drop start xs)"

text \<open>
  The inner loop (lines 162 to 171): the lines it yields, and \<^verbatim>\<open>start\<close> when it ends.
\<close>

function line_loop :: "string \<Rightarrow> nat \<Rightarrow> string list \<times> nat" where
  "line_loop concatenated start =
     (if start < length concatenated then
        (case indexOf concatenated newLineUint8 start of
           None \<Rightarrow> ([], start)
         | Some stop \<Rightarrow>
             (let (ls, start') = line_loop concatenated (stop + 1)
              in (slice concatenated start stop # ls, start')))
      else ([], start))"
  by pat_completeness auto
termination
  by (relation "measure (\<lambda>(c, s). length c - s)") (auto simp: indexOf_def split: if_splits)

declare line_loop.simps [simp del]

text \<open>
  The outer loop (lines 153 to 177) over the chunks the reader delivers: the lines
  yielded, and the buffer left when the reader is done.
\<close>

fun read_loop :: "string \<Rightarrow> string list \<Rightarrow> string list \<times> string" where
  "read_loop buffer [] = ([], buffer)"
| "read_loop buffer (chunk # rest) =
     (let concatenated = buffer @ chunk;
          (ls, start) = line_loop concatenated 0;
          (ls', buffer') = read_loop (drop start concatenated) rest
      in (ls @ ls', buffer'))"

fun show_nat :: "nat \<Rightarrow> string" where
  "show_nat n =
     (if n < 10 then [char_of (48 + n)]
      else show_nat (n div 10) @ [char_of (48 + n mod 10)])"

declare show_nat.simps [simp del]

text \<open>
  \<^verbatim>\<open>response'\<close> is a response or a promise of one; \<open>Inl\<close> is a rejected promise.
\<close>

definition parseJSONLinesResponse ::
  "error + response \<Rightarrow> string \<Rightarrow> (json \<Rightarrow> error + 'a) \<Rightarrow> 'a graffiti_stream" where
  "parseJSONLinesResponse response' src lineParser =
     (case response' of
        Inl e \<Rightarrow> ([], Some e)
      | Inr r \<Rightarrow>
     (case catchResponseErrors r of
        Inl e \<Rightarrow> ([], Some e)
      | Inr _ \<Rightarrow>
     if status r = 204 then ([], None)
     else if status r \<noteq> 200 then
       ([], Some (Error (JString (''Unexpected status code from server: '' @ show_nat (status r)))))
     else
     (case body r of
        None \<Rightarrow>
          ([], Some (Error (JString ''Failed to get a reader from the server's response body'')))
      | Some chunks \<Rightarrow>
          (let (ls, buffer) = read_loop [] chunks
           in (map (\<lambda>l. parseJSONLine (decoder_decode l) lineParser src) ls
                 @ (if buffer \<noteq> []
                    then [parseJSONLine (decoder_decode buffer) lineParser src]
                    else []),
               None)))))"

subsection \<open>The wire format in the spec's words\<close>

text \<open>
  Bytes are buffered until a line terminator is seen, and each complete line is a record;
  a fragment that is left when the stream ends, and is not empty, is one more record.
  \<open>spec_lines cur bs\<close> reads the bytes \<open>bs\<close> with \<open>cur\<close> buffered: the complete lines, and
  the buffer at the end.
\<close>

fun spec_lines :: "string \<Rightarrow> string \<Rightarrow> string list \<times> string" where
  "spec_lines cur [] = ([], cur)"
| "spec_lines cur (b # bs) =
     (if b = newLineUint8 then (cur # fst (spec_lines [] bs), snd (spec_lines [] bs))
      else spec_lines (cur @ [b]) bs)"

definition wire_lines :: "string \<Rightarrow> string list" where
  "wire_lines bs =
     fst (spec_lines [] bs) @ (if snd (spec_lines [] bs) \<noteq> [] then [snd (spec_lines [] bs)] else [])"

section \<open>The router: \<^verbatim>\<open>GraffitiRemoteAndLocal\<close>\<close>

text \<open>
  A session is \<^verbatim>\<open>{actor, fetch?}\<close>; \<open>session_fetch\<close> is \<open>None\<close> when the object has no
  property \<^verbatim>\<open>fetch\<close>. An absent session (\<^verbatim>\<open>undefined\<close> or \<^verbatim>\<open>null\<close>) is \<open>None\<close>.
\<close>

record 'f session =
  session_actor :: string
  session_fetch :: "'f option"

datatype location_or_uri = Uri string | Location location

text \<open>
  An asynchronous iterator: a state and what one call of \<^verbatim>\<open>next()\<close> does to it. The
  call gives \<^verbatim>\<open>{done: false, value}\<close>, gives \<^verbatim>\<open>{done: true}\<close>, or rejects.
\<close>

datatype 'a iter_result = IterValue 'a | IterDone | IterThrow error

record ('s, 'a) iterator =
  state :: 's
  iter_next :: "'s \<Rightarrow> 'a iter_result \<times> 's"

text \<open>
  \<^verbatim>\<open>GraffitiBase\<close>, the seven operations both stores implement. The objects, schemas,
  patches, promises and channel statistics are whatever the stores make of them.
\<close>

record ('obj, 'sch, 'pat, 'f, 'r, 's, 'a, 'cs) graffiti_base =
  get :: "location_or_uri \<Rightarrow> 'sch \<Rightarrow> 'f session option \<Rightarrow> 'r"
  put :: "'obj \<Rightarrow> 'f session option \<Rightarrow> 'r"
  patch :: "'pat \<Rightarrow> location_or_uri \<Rightarrow> 'f session option \<Rightarrow> 'r"
  delete :: "location_or_uri \<Rightarrow> 'f session option \<Rightarrow> 'r"
  discover :: "string list \<Rightarrow> 'sch \<Rightarrow> 'f session option \<Rightarrow> ('s, 'a) iterator"
  recoverOrphans :: "'sch \<Rightarrow> 'f session option \<Rightarrow> ('s, 'a) iterator"
  channelStats :: "'f session option \<Rightarrow> 'cs"

record ('obj, 'sch, 'pat, 'f, 'r, 's, 'a, 'cs) GraffitiRemoteAndLocal =
  localGraffiti :: "('obj, 'sch, 'pat, 'f, 'r, 's, 'a, 'cs) graffiti_base"
  remoteGraffiti :: "('obj, 'sch, 'pat, 'f, 'r, 's, 'a, 'cs) graffiti_base"

definition isRemoteSession :: "'f session option \<Rightarrow> bool" where
  "isRemoteSession session =
     (case session of
        None \<Rightarrow> False
      | Some s \<Rightarrow> startsWith (session_actor s) ''http'' \<and> session_fetch s \<noteq> None)"

text \<open>
  \<^verbatim>\<open>unpackLocationOrUri\<close> belongs to another package; it is the parameter \<open>unpack\<close>, and
  may throw on a string that is no location.
\<close>

definition isRemoteLocation ::
  "(location_or_uri \<Rightarrow> error + location \<times> string) \<Rightarrow> location_or_uri \<Rightarrow> error + bool" where
  "isRemoteLocation unpack locationOrUri =
     (case unpack locationOrUri of
        Inl e \<Rightarrow> Inl e
      | Inr (loc, uri) \<Rightarrow> Inr (startsWith (source loc) ''http''))"

text \<open>\<^verbatim>\<open>get\<close> is \<^verbatim>\<open>async\<close>: a throw of \<^verbatim>\<open>isRemoteLocation\<close> rejects its promise (\<open>Inl\<close>).\<close>

definition GraffitiRemoteAndLocal_get ::
  "(location_or_uri \<Rightarrow> error + location \<times> string) \<Rightarrow>
   ('obj, 'sch, 'pat, 'f, 'r, 's, 'a, 'cs) GraffitiRemoteAndLocal \<Rightarrow>
   location_or_uri \<Rightarrow> 'sch \<Rightarrow> 'f session option \<Rightarrow> error + 'r" where
  "GraffitiRemoteAndLocal_get unpack this locationOrUri schema session =
     (case isRemoteLocation unpack locationOrUri of
        Inl e \<Rightarrow> Inl e
      | Inr True \<Rightarrow>
          Inr (get (remoteGraffiti this) locationOrUri schema
                 (if isRemoteSession session then session else None))
      | Inr False \<Rightarrow> Inr (get (localGraffiti this) locationOrUri schema session))"

definition GraffitiRemoteAndLocal_put ::
  "('obj, 'sch, 'pat, 'f, 'r, 's, 'a, 'cs) GraffitiRemoteAndLocal \<Rightarrow>
   'obj \<Rightarrow> 'f session option \<Rightarrow> 'r" where
  "GraffitiRemoteAndLocal_put this object session =
     (if isRemoteSession session then put (remoteGraffiti this) object session
      else put (localGraffiti this) object session)"

definition GraffitiRemoteAndLocal_delete ::
  "('obj, 'sch, 'pat, 'f, 'r, 's, 'a, 'cs) GraffitiRemoteAndLocal \<Rightarrow>
   location_or_uri \<Rightarrow> 'f session option \<Rightarrow> 'r" where
  "GraffitiRemoteAndLocal_delete this locationOrUri session =
     (if isRemoteSession session then delete (remoteGraffiti this) locationOrUri session
      else delete (localGraffiti this) locationOrUri session)"

definition GraffitiRemoteAndLocal_patch ::
  "('obj, 'sch, 'pat, 'f, 'r, 's, 'a, 'cs) GraffitiRemoteAndLocal \<Rightarrow>
   'pat \<Rightarrow> location_or_uri \<Rightarrow> 'f session option \<Rightarrow> 'r" where
  "GraffitiRemoteAndLocal_patch this p locationOrUri session =
     (if isRemoteSession session then patch (remoteGraffiti this) p locationOrUri session
      else patch (localGraffiti this) p locationOrUri session)"

text \<open>
  \<^verbatim>\<open>discover\<close> opens both iterators at once and returns an iterator over the pair.
  Its \<^verbatim>\<open>next\<close> awaits the local iterator's \<^verbatim>\<open>next\<close>: a result that is not done is
  returned (a rejection rejects), and on \<^verbatim>\<open>done\<close> the remote iterator's \<^verbatim>\<open>next\<close> is
  returned. (\<^verbatim>\<open>return\<close> and \<^verbatim>\<open>throw\<close> are the remote iterator's.)
\<close>

definition merged_next ::
  "('s, 'a) iterator \<Rightarrow> ('s, 'a) iterator \<Rightarrow> 's \<times> 's \<Rightarrow> 'a iter_result \<times> ('s \<times> 's)" where
  "merged_next localIterator remoteIterator st =
     (case st of (sl, sr) \<Rightarrow>
        (case iter_next localIterator sl of
           (IterDone, sl') \<Rightarrow>
             (case iter_next remoteIterator sr of (res, sr') \<Rightarrow> (res, (sl', sr')))
         | (localResult, sl') \<Rightarrow> (localResult, (sl', sr))))"

definition GraffitiRemoteAndLocal_discover ::
  "('obj, 'sch, 'pat, 'f, 'r, 's, 'a, 'cs) GraffitiRemoteAndLocal \<Rightarrow>
   string list \<Rightarrow> 'sch \<Rightarrow> 'f session option \<Rightarrow> ('s \<times> 's, 'a) iterator" where
  "GraffitiRemoteAndLocal_discover this chans schema session =
     (let localIterator = discover (localGraffiti this) chans schema session;
          remoteIterator = discover (remoteGraffiti this) chans schema
                             (if isRemoteSession session then session else None)
      in \<lparr> state = (state localIterator, state remoteIterator),
           iter_next = merged_next localIterator remoteIterator \<rparr>)"

definition GraffitiRemoteAndLocal_recoverOrphans ::
  "('obj, 'sch, 'pat, 'f, 'r, 's, 'a, 'cs) GraffitiRemoteAndLocal \<Rightarrow>
   'sch \<Rightarrow> 'f session option \<Rightarrow> ('s, 'a) iterator" where
  "GraffitiRemoteAndLocal_recoverOrphans this schema session =
     (if isRemoteSession session then recoverOrphans (remoteGraffiti this) schema session
      else recoverOrphans (localGraffiti this) schema session)"

definition GraffitiRemoteAndLocal_channelStats ::
  "('obj, 'sch, 'pat, 'f, 'r, 's, 'a, 'cs) GraffitiRemoteAndLocal \<Rightarrow>
   'f session option \<Rightarrow> 'cs" where
  "GraffitiRemoteAndLocal_channelStats this session =
     (if isRemoteSession session then channelStats (remoteGraffiti this) session
      else channelStats (localGraffiti this) session)"

text \<open>The results of the first \<open>n\<close> calls of \<^verbatim>\<open>next()\<close>, and the state they leave.\<close>

fun pull :: "nat \<Rightarrow> ('s \<Rightarrow> 'a iter_result \<times> 's) \<Rightarrow> 's \<Rightarrow> 'a iter_result list \<times> 's" where
  "pull 0 nxt s = ([], s)"
| "pull (Suc n) nxt s =
     (case nxt s of (r, s') \<Rightarrow> (case pull n nxt s' of (rs, s'') \<Rightarrow> (r # rs, s'')))"

text \<open>
  The iterator of a generator that yields the elements of a list and returns: its state
  is what is left to yield, and once done it stays done.
\<close>

fun list_next :: "'a list \<Rightarrow> 'a iter_result \<times> 'a list" where
  "list_next [] = (IterDone, [])"
| "list_next (x # xs) = (IterValue x, xs)"

text \<open>An iterator that is done and stays done, as a generator that has returned.\<close>

definition stays_done :: "('s \<Rightarrow> 'a iter_result \<times> 's) \<Rightarrow> 's \<Rightarrow> bool" where
  "stays_done nxt s = (\<forall>k. fst (pull k nxt s) = replicate k IterDone)"

section \<open>The client: \<^verbatim>\<open>GraffitiClient\<close>\<close>

text \<open>
  The client names the fields of a location \<^verbatim>\<open>webId\<close> and \<^verbatim>\<open>pod\<close> where the response
  parser reads \<^verbatim>\<open>actor\<close> and \<^verbatim>\<open>source\<close>; the model has the one record \<^typ>\<open>location\<close>.
\<close>

record local_object =
  lo_value :: json
  lo_channels :: "string list"
  lo_acl :: "string list option"

record graffiti_patch =
  patch_value :: "json list option"
  patch_channels :: "json list option"
  patch_acl :: "json list option"

text \<open>The session argument \<^verbatim>\<open>{fetch?}\<close> of the client's operations.\<close>

record 'f fetch_session =
  fetch_of :: "'f option"

datatype 'f fetcher = GlobalFetch | SessionFetch 'f

definition whichFetch :: "'f fetch_session option \<Rightarrow> 'f fetcher" where
  "whichFetch session =
     (case session of
        None \<Rightarrow> GlobalFetch
      | Some s \<Rightarrow> (case fetch_of s of None \<Rightarrow> GlobalFetch | Some f \<Rightarrow> SessionFetch f))"

text \<open>
  The second argument of \<^verbatim>\<open>put\<close>: a URL, or an object with \<^verbatim>\<open>webId\<close>, \<^verbatim>\<open>pod\<close>, and
  optionally \<^verbatim>\<open>name\<close> and \<^verbatim>\<open>fetch\<close> (a location or a session). A field that is
  \<^verbatim>\<open>undefined\<close> is \<open>None\<close>; \<^verbatim>\<open>undefined\<close> for the whole argument is the object with no field.
\<close>

record 'f target_fields =
  target_webId :: "string option"
  target_name :: "string option"
  target_pod :: "string option"
  target_fetch :: "'f option"

datatype 'f put_target = UrlTarget string | ObjectTarget "'f target_fields"

record requestInit =
  init_method :: string
  init_headers :: "(string \<times> string) list"
  init_body :: "string option"

datatype query_params =
    ObjectParams local_object
  | PatchParams "string list option" "string list option"

text \<open>
  What the client calls and this repository's sources do not hold: the transport
  (\<open>call_fetch\<close>, which may reject), the helpers of \<^verbatim>\<open>./types\<close> and
  \<^verbatim>\<open>./header-encoders\<close>, the random name, \<^verbatim>\<open>JSON.stringify\<close>, the pod delegation with
  its own state \<open>'d\<close>, and the recording methods of the Local Change Cache over its state
  \<open>'lc\<close>. The helpers and the recording methods are taken to return.
\<close>

record ('f, 'd, 'lc) environment =
  Date_parse :: "string \<Rightarrow> int option"
  call_fetch :: "'f fetcher \<Rightarrow> string \<Rightarrow> requestInit option \<Rightarrow> error + response"
  parseLocationOrUrl :: "location_or_uri \<Rightarrow> error + location \<times> string"
  locationToUrl :: "location \<Rightarrow> string"
  randomName :: string
  encodeJSONBody :: "requestInit \<Rightarrow> json \<Rightarrow> requestInit"
  encodeQueryParams :: "string \<Rightarrow> query_params \<Rightarrow> string"
  JSON_stringify :: "json \<Rightarrow> string"
  addPod :: "'d \<Rightarrow> string \<Rightarrow> string \<Rightarrow> 'f fetch_session option \<Rightarrow> error + 'd"
  hasPod :: "'d \<Rightarrow> string \<Rightarrow> string \<Rightarrow> 'f fetch_session option \<Rightarrow> error + bool \<times> 'd"
  localChanges_put :: "'lc \<Rightarrow> local_object \<Rightarrow> graffiti_object \<Rightarrow> 'lc"
  localChanges_delete :: "'lc \<Rightarrow> graffiti_object \<Rightarrow> 'lc"
  localChanges_patch :: "'lc \<Rightarrow> graffiti_patch \<Rightarrow> graffiti_object \<Rightarrow> 'lc"

record ('d, 'lc) GraffitiClient =
  delegation :: 'd
  localChanges :: 'lc

definition falsy :: "string option \<Rightarrow> bool" where
  "falsy x = (case x of None \<Rightarrow> True | Some s \<Rightarrow> s = [])"

text \<open>Lines 113 to 151 of \<^verbatim>\<open>put\<close>: the location, the URL and the \<^verbatim>\<open>fetch\<close> to use.\<close>

definition put_target_location ::
  "('f, 'd, 'lc) environment \<Rightarrow> 'f put_target \<Rightarrow> 'f fetch_session option \<Rightarrow>
   error + location \<times> string \<times> 'f fetcher" where
  "put_target_location env target session =
     (case target of
        UrlTarget u \<Rightarrow>
          (case parseLocationOrUrl env (Uri u) of
             Inl e \<Rightarrow> Inl e
           | Inr (loc, url) \<Rightarrow> Inr (loc, url, whichFetch session))
      | ObjectTarget t \<Rightarrow>
          if falsy (target_webId t) then
            Inl (Error (JString ''no webId provided to PUT either via the location or session.''))
          else if falsy (target_pod t) then
            Inl (Error (JString ''no pod provided to PUT either via the location or session.''))
          else
            (let nm = (if falsy (target_name t) then randomName env else the (target_name t));
                 loc = \<lparr> actor = the (target_webId t), source = the (target_pod t), name = nm \<rparr>
             in Inr (loc, locationToUrl env loc,
                     (case target_fetch t of
                        None \<Rightarrow> whichFetch session
                      | Some f \<Rightarrow> SessionFetch f))))"

definition GraffitiClient_put ::
  "('f, 'd, 'lc) environment \<Rightarrow> ('d, 'lc) GraffitiClient \<Rightarrow> local_object \<Rightarrow> 'f put_target \<Rightarrow>
   'f fetch_session option \<Rightarrow> (error + graffiti_object) \<times> ('d, 'lc) GraffitiClient" where
  "GraffitiClient_put env this object target session =
     (case put_target_location env target session of
        Inl e \<Rightarrow> (Inl e, this)
      | Inr (loc, url, fetch) \<Rightarrow>
     (case addPod env (delegation this) (actor loc) (source loc) session of
        Inl e \<Rightarrow> (Inl e, this)
      | Inr d \<Rightarrow>
     (let this1 = this \<lparr> delegation := d \<rparr>;
          init = encodeJSONBody env \<lparr> init_method = ''PUT'', init_headers = [], init_body = None \<rparr>
                   (lo_value object);
          url1 = encodeQueryParams env url (ObjectParams object)
      in case call_fetch env fetch url1 (Some init) of
           Inl e \<Rightarrow> (Inl e, this1)
         | Inr resp \<Rightarrow>
             (case parseGraffitiObjectResponse (Date_parse env) resp loc False of
                Inl e \<Rightarrow> (Inl e, this1)
              | Inr oldObject \<Rightarrow>
                  (Inr oldObject,
                   this1 \<lparr> localChanges :=
                             localChanges_put env (localChanges this1) object oldObject \<rparr>)))))"

definition GraffitiClient_get ::
  "('f, 'd, 'lc) environment \<Rightarrow> ('d, 'lc) GraffitiClient \<Rightarrow> location_or_uri \<Rightarrow>
   'f fetch_session option \<Rightarrow> (error + graffiti_object) \<times> ('d, 'lc) GraffitiClient" where
  "GraffitiClient_get env this locationOrUrl session =
     (case parseLocationOrUrl env locationOrUrl of
        Inl e \<Rightarrow> (Inl e, this)
      | Inr (loc, url) \<Rightarrow>
     (case hasPod env (delegation this) (actor loc) (source loc) session of
        Inl e \<Rightarrow> (Inl e, this)
      | Inr (has, d) \<Rightarrow>
     (let this1 = this \<lparr> delegation := d \<rparr> in
      if \<not> has then
        (Inl (Error (JString (''The Graffiti pod '' @ source loc
                 @ '' is not registered with the WebID '' @ actor loc))), this1)
      else
        (case call_fetch env (whichFetch session) url None of
           Inl e \<Rightarrow> (Inl e, this1)
         | Inr resp \<Rightarrow> (parseGraffitiObjectResponse (Date_parse env) resp loc True, this1)))))"

definition GraffitiClient_delete ::
  "('f, 'd, 'lc) environment \<Rightarrow> ('d, 'lc) GraffitiClient \<Rightarrow> location_or_uri \<Rightarrow>
   'f fetch_session option \<Rightarrow> (error + graffiti_object) \<times> ('d, 'lc) GraffitiClient" where
  "GraffitiClient_delete env this locationOrUrl session =
     (case parseLocationOrUrl env locationOrUrl of
        Inl e \<Rightarrow> (Inl e, this)
      | Inr (loc, url) \<Rightarrow>
     (case call_fetch env (whichFetch session) url
             (Some \<lparr> init_method = ''DELETE'', init_headers = [], init_body = None \<rparr>) of
        Inl e \<Rightarrow> (Inl e, this)
      | Inr resp \<Rightarrow>
          (case parseGraffitiObjectResponse (Date_parse env) resp loc False of
             Inl e \<Rightarrow> (Inl e, this)
           | Inr oldObject \<Rightarrow>
               (Inr oldObject,
                this \<lparr> localChanges := localChanges_delete env (localChanges this) oldObject \<rparr>))))"

definition GraffitiClient_patch ::
  "('f, 'd, 'lc) environment \<Rightarrow> ('d, 'lc) GraffitiClient \<Rightarrow> graffiti_patch \<Rightarrow> location_or_uri \<Rightarrow>
   'f fetch_session option \<Rightarrow> (error + graffiti_object) \<times> ('d, 'lc) GraffitiClient" where
  "GraffitiClient_patch env this p locationOrUrl session =
     (case parseLocationOrUrl env locationOrUrl of
        Inl e \<Rightarrow> (Inl e, this)
      | Inr (loc, url) \<Rightarrow>
     (let init0 = \<lparr> init_method = ''PATCH'', init_headers = [], init_body = None \<rparr>;
          init = (case patch_value p of
                    None \<Rightarrow> init0
                  | Some ops \<Rightarrow> encodeJSONBody env init0 (JArray ops));
          urlWithQuery = encodeQueryParams env url
                           (PatchParams (map_option (map (JSON_stringify env)) (patch_channels p))
                                        (map_option (map (JSON_stringify env)) (patch_acl p)))
      in case call_fetch env (whichFetch session) urlWithQuery (Some init) of
           Inl e \<Rightarrow> (Inl e, this)
         | Inr resp \<Rightarrow>
             (case parseGraffitiObjectResponse (Date_parse env) resp loc False of
                Inl e \<Rightarrow> (Inl e, this)
              | Inr oldObject \<Rightarrow>
                  (Inr oldObject,
                   this \<lparr> localChanges :=
                            localChanges_patch env (localChanges this) p oldObject \<rparr>))))"

subsection \<open>The line callbacks of the streaming queries\<close>

text \<open>
  The callbacks that \<^verbatim>\<open>listChannels\<close>, \<^verbatim>\<open>listOrphans\<close> and \<^verbatim>\<open>discover\<close> pass to the
  streamer (lines 311 to 321, 351 to 361 and 435 to 457 of the client).
\<close>

text \<open>
  What a callback returns for a line: the parsed record \<^verbatim>\<open>partial\<close> spread into a new
  object together with the pod (its \<^verbatim>\<open>lastModified\<close> is \<^verbatim>\<open>new Date(partial.lastModified)\<close>,
  a function of \<^verbatim>\<open>partial\<close>).
\<close>

record line_result =
  partial :: json
  pod :: string

text \<open>
  The validators compiled by \<^verbatim>\<open>ajv\<close> from the fixed schemas and from the caller's schema,
  and the delegation check, are parameters. Each callback is given in two steps: what
  it does with the parsed record, and the callback itself, which parses the line first.
\<close>

definition listChannels_record :: "(json \<Rightarrow> bool) \<Rightarrow> json \<Rightarrow> string \<Rightarrow> error + line_result" where
  "listChannels_record validateChannelResult p pd =
     (if \<not> validateChannelResult p then Inl (Error (JString ''Invalid channel result''))
      else Inr \<lparr> partial = p, pod = pd \<rparr>)"

definition listChannels_line :: "(json \<Rightarrow> bool) \<Rightarrow> string \<Rightarrow> string \<Rightarrow> error + line_result" where
  "listChannels_line validateChannelResult line pd =
     (case JSON_parse line of
        None \<Rightarrow> Inl SyntaxError
      | Some p \<Rightarrow> listChannels_record validateChannelResult p pd)"

definition listOrphans_record :: "(json \<Rightarrow> bool) \<Rightarrow> json \<Rightarrow> string \<Rightarrow> error + line_result" where
  "listOrphans_record validateOrphanResult p pd =
     (if \<not> validateOrphanResult p then Inl (Error (JString ''Invalid orphan result''))
      else Inr \<lparr> partial = p, pod = pd \<rparr>)"

definition listOrphans_line :: "(json \<Rightarrow> bool) \<Rightarrow> string \<Rightarrow> string \<Rightarrow> error + line_result" where
  "listOrphans_line validateOrphanResult line pd =
     (case JSON_parse line of
        None \<Rightarrow> Inl SyntaxError
      | Some p \<Rightarrow> listOrphans_record validateOrphanResult p pd)"

definition discover_record ::
  "(json \<Rightarrow> bool) \<Rightarrow> (line_result \<Rightarrow> bool) \<Rightarrow> (line_result \<Rightarrow> error + bool) \<Rightarrow>
   json \<Rightarrow> string \<Rightarrow> error + line_result" where
  "discover_record validateGraffitiObject validate delegated p pd =
     (if \<not> validateGraffitiObject p then Inl (Error (JString ''Invalid graffiti object''))
      else
        (let object = \<lparr> partial = p, pod = pd \<rparr> in
         if \<not> validate object then Inl (Error (JString ''Object does match schema''))
         else
           (case delegated object of
              Inl e \<Rightarrow> Inl e
            | Inr False \<Rightarrow>
                Inl (Error (JString ''Pod returned an object not authorized by its owner''))
            | Inr True \<Rightarrow> Inr object)))"

definition discover_line ::
  "(json \<Rightarrow> bool) \<Rightarrow> (line_result \<Rightarrow> bool) \<Rightarrow> (line_result \<Rightarrow> error + bool) \<Rightarrow>
   string \<Rightarrow> string \<Rightarrow> error + line_result" where
  "discover_line validateGraffitiObject validate delegated line pd =
     (case JSON_parse line of
        None \<Rightarrow> Inl SyntaxError
      | Some p \<Rightarrow> discover_record validateGraffitiObject validate delegated p pd)"

subsection \<open>The multi-pod streamer\<close>

text \<open>
  Modelled from the spec: \<^verbatim>\<open>LinesFeed.streamMultiple\<close> (\<^verbatim>\<open>./lines-feed\<close>) is not among the
  sources. The spec, section 4.3: one wire-parser stream is issued per pod of the session;
  a pod that is unreachable or returns a transport-level error contributes one
  \<^verbatim>\<open>{error, source: pod}\<close> element for that failure; within one pod's sub-stream the pod's
  order is kept, and across pods no order is promised.
\<close>

definition pod_stream ::
  "(string \<Rightarrow> error + response) \<Rightarrow> (json \<Rightarrow> string \<Rightarrow> error + 'a) \<Rightarrow> string \<Rightarrow>
   'a stream_element list" where
  "pod_stream fetch_pod on_record pd =
     (case parseJSONLinesResponse (fetch_pod pd) pd (\<lambda>j. on_record j pd) of
        (elements, None) \<Rightarrow> elements
      | (elements, Some e) \<Rightarrow> elements @ [Failure (as_Error e) pd])"

text \<open>
  Modelled from the spec: the merge of \<^verbatim>\<open>streamMultiple\<close>, whose code is missing. The
  output takes the next element of any sub-stream that has one, and ends when all are
  exhausted; an empty set of pods gives the empty stream.
\<close>

inductive merged :: "'a list list \<Rightarrow> 'a list \<Rightarrow> bool" where
  merged_done: "\<forall>s \<in> set ss. s = [] \<Longrightarrow> merged ss []"
| merged_step: "i < length ss \<Longrightarrow> ss ! i = x # xs \<Longrightarrow> merged (ss[i := xs]) out
                 \<Longrightarrow> merged ss (x # out)"

text \<open>
  Modelled from the spec: \<^verbatim>\<open>streamMultiple\<close> itself, as the relation between the pods of
  the session and a sequence it may produce.
\<close>

definition streamMultiple ::
  "(string \<Rightarrow> error + response) \<Rightarrow> (json \<Rightarrow> string \<Rightarrow> error + 'a) \<Rightarrow> string list \<Rightarrow>
   'a stream_element list \<Rightarrow> bool" where
  "streamMultiple fetch_pod on_record pods out =
     merged (map (pod_stream fetch_pod on_record) pods) out"

section \<open>Example data\<close>

definition example_response :: "nat \<Rightarrow> (string \<times> string) list \<Rightarrow> string list \<Rightarrow> response" where
  "example_response st hs chunks = \<lparr> status = st, headers = map_of hs, body = Some chunks \<rparr>"

definition example_location :: location where
  "example_location =
     \<lparr> actor = ''https://id.example/alice'', source = ''https://pod.example'', name = ''note'' \<rparr>"

text \<open>A \<^verbatim>\<open>Date\<close> that reads one date, one second after the epoch, and nothing else.\<close>

definition example_Date_parse :: "string \<Rightarrow> int option" where
  "example_Date_parse s = (if s = ''Thu, 01 Jan 1970 00:00:01 GMT'' then Some 1000 else None)"

definition example_headers :: "(string \<times> string) list" where
  "example_headers =
     [(''last-modified'', ''Thu, 01 Jan 1970 00:00:01 GMT''),
      (''last-modified-ms'', ''234''),
      (''channels'', ''a,,b%20c'')]"

definition example_object :: "bool \<Rightarrow> graffiti_object" where
  "example_object t =
     \<lparr> actor = ''https://id.example/alice'', source = ''https://pod.example'', name = ''note'',
       tombstone = t, value' = JObject [], channels = [''a'', ''b c''], allowed = None,
       lastModified = 1234 \<rparr>"

text \<open>
  A Local Change Cache that is the list of the calls made to it, and an environment around
  one response of the transport.
\<close>

datatype change =
    PutChange local_object graffiti_object
  | DeleteChange graffiti_object
  | PatchChange graffiti_patch graffiti_object

definition example_environment :: "response \<Rightarrow> (unit, unit, change list) environment" where
  "example_environment resp =
     \<lparr> Date_parse = example_Date_parse,
       call_fetch = (\<lambda>f url init. Inr resp),
       parseLocationOrUrl =
         (\<lambda>l. case l of
                Uri u \<Rightarrow> Inl (Error (JString ''not a location''))
              | Location loc \<Rightarrow> Inr (loc, source loc @ ''/'' @ name loc)),
       locationToUrl = (\<lambda>loc. source loc @ ''/'' @ name loc),
       randomName = ''r4nd0m'',
       encodeJSONBody = (\<lambda>init v. init),
       encodeQueryParams = (\<lambda>url q. url),
       JSON_stringify = (\<lambda>j. []),
       addPod = (\<lambda>d w p s. Inr d),
       hasPod = (\<lambda>d w p s. Inr (True, d)),
       localChanges_put = (\<lambda>lc object old. lc @ [PutChange object old]),
       localChanges_delete = (\<lambda>lc old. lc @ [DeleteChange old]),
       localChanges_patch = (\<lambda>lc p old. lc @ [PatchChange p old]) \<rparr>"

definition example_client :: "(unit, change list) GraffitiClient" where
  "example_client = \<lparr> delegation = (), localChanges = [] \<rparr>"

definition example_local_object :: local_object where
  "example_local_object = \<lparr> lo_value = JObject [], lo_channels = [''a''], lo_acl = None \<rparr>"

definition example_patch :: graffiti_patch where
  "example_patch = \<lparr> patch_value = None, patch_channels = Some [], patch_acl = None \<rparr>"

definition example_target :: "unit put_target" where
  "example_target =
     ObjectTarget \<lparr> target_webId = Some ''https://id.example/alice'', target_name = Some ''note'',
                    target_pod = Some ''https://pod.example'', target_fetch = None \<rparr>"

text \<open>
  Two stores that answer every call with their own name, and whose \<^verbatim>\<open>discover\<close> yields the
  elements of a given list; a remote-capable session and a local one.
\<close>

definition example_store ::
  "string \<Rightarrow> nat stream_element list \<Rightarrow>
   (unit, unit, unit, unit, string, nat stream_element list, nat stream_element, string) graffiti_base" where
  "example_store tag items =
     \<lparr> get = (\<lambda>l sch s. tag),
       put = (\<lambda>object s. tag),
       patch = (\<lambda>p l s. tag),
       delete = (\<lambda>l s. tag),
       discover = (\<lambda>chans sch s. \<lparr> state = items, iter_next = list_next \<rparr>),
       recoverOrphans = (\<lambda>sch s. \<lparr> state = items, iter_next = list_next \<rparr>),
       channelStats = (\<lambda>s. tag) \<rparr>"

definition example_router ::
  "(unit, unit, unit, unit, string, nat stream_element list, nat stream_element, string)
     GraffitiRemoteAndLocal" where
  "example_router =
     \<lparr> localGraffiti = example_store ''local'' [Value 1, Failure (Error (JString ''disk'')) ''local''],
       remoteGraffiti = example_store ''remote'' [Value 2, Value 3] \<rparr>"

definition example_unpack :: "location_or_uri \<Rightarrow> error + location \<times> string" where
  "example_unpack l =
     (case l of
        Uri u \<Rightarrow> Inl (Error (JString ''not a location''))
      | Location loc \<Rightarrow> Inr (loc, source loc @ ''/'' @ name loc))"

definition remote_session :: "unit session option" where
  "remote_session = Some \<lparr> session_actor = ''https://id.example/alice'', session_fetch = Some () \<rparr>"

definition local_session :: "unit session option" where
  "local_session = Some \<lparr> session_actor = ''local-alice'', session_fetch = None \<rparr>"

definition local_location :: location where
  "local_location = \<lparr> actor = ''local-alice'', source = ''local'', name = ''note'' \<rparr>"

text \<open>
  A streamed body in three chunks that cut through its lines, the second line not being JSON,
  and a transport in which one pod answers with it and every other pod is unreachable.
\<close>

definition example_chunks :: "string list" where
  "example_chunks = [''{}'' @ [CHR 0x0A] @ ''[1'', '',2'' @ [CHR 0x0A] @ ''nu'', ''ll'']"

definition example_fetch_pod :: "string \<Rightarrow> error + response" where
  "example_fetch_pod pd =
     (if pd = ''https://pod.example'' then Inr (example_response 200 [] example_chunks)
      else Inl TypeError)"

section \<open>Verified properties\<close>

subsection \<open>The bound of the JSON parser\<close>

lemma skip_ws_length: "length (skip_ws s) \<le> length s"
  by (simp add: skip_ws_def length_dropWhile_le)

lemma string_body_length: "string_body cs acc = Some (str, r) \<Longrightarrow> length r < Suc (length cs)"
proof (induction cs acc rule: string_body.induct)
  case (1 acc)
  then show ?case by simp
next
  case (2 c cs acc)
  show ?case
  proof (cases "c = CHR 0x22")
    case True
    with "2.prems" show ?thesis by simp
  next
    case nq: False
    show ?thesis
    proof (cases "c = CHR 0x5C")
      case False
      with nq "2.prems" "2.IH"(3) show ?thesis
        by (auto split: if_splits)
    next
      case bs: True
      show ?thesis
      proof (cases cs)
        case Nil
        with nq bs "2.prems" show ?thesis by simp
      next
        case (Cons e cs')
        show ?thesis
        proof (cases "e = CHR ''u''")
          case False
          with nq bs Cons "2.prems" obtain ch where
            "unescape e = Some ch" "string_body cs' (acc @ [ch]) = Some (str, r)"
            by (auto split: option.splits)
          with "2.IH"(2)[OF nq bs Cons False] Cons show ?thesis
            by fastforce
        next
          case u: True
          with nq bs Cons "2.prems" obtain a b c' d rest v where
            q: "cs' = a # b # c' # d # rest" "hex4 a b c' d = Some v"
               "string_body rest (acc @ utf8_of_unit v) = Some (str, r)"
            by (auto split: list.splits option.splits)
          from "2.IH"(1)[OF nq bs Cons u q(1) _ _ _ q(2)] q(3) Cons q(1) show ?thesis
            by fastforce
        qed
      qed
    qed
  qed
qed

lemma digits_length: "length (snd (digits s)) \<le> length s"
  by (simp add: digits_def length_dropWhile_le)

lemma number_int_length: "number_int s = Some (i, r) \<Longrightarrow> length r < length s"
  using digits_length
  by (auto simp: number_int_def less_Suc_eq_le split: list.splits if_splits)

lemma number_frac_length: "number_frac s = Some (f, r) \<Longrightarrow> length r \<le> length s"
  using digits_length
  by (auto simp: number_frac_def le_Suc_eq split: list.splits if_splits)

lemma number_exp_length: "number_exp s = Some (e, r) \<Longrightarrow> length r \<le> length s"
proof (cases s)
  case Nil
  assume "number_exp s = Some (e, r)"
  with Nil show ?thesis by (simp add: number_exp_def)
next
  case (Cons c cs)
  assume a: "number_exp s = Some (e, r)"
  show ?thesis
  proof (cases "c = CHR ''e'' \<or> c = CHR ''E''")
    case False
    with a Cons show ?thesis by (auto simp: number_exp_def)
  next
    case True
    then obtain sg t where st: "(case cs of [] \<Rightarrow> ([], cs)
             | d # ds \<Rightarrow> if d = CHR ''+'' \<or> d = CHR ''-'' then ([d], ds) else ([], cs)) = (sg, t)"
      by (cases "(case cs of [] \<Rightarrow> ([]::string, cs)
             | d # ds \<Rightarrow> if d = CHR ''+'' \<or> d = CHR ''-'' then ([d], ds) else ([], cs))") auto
    then have "length t \<le> length cs"
      by (auto split: list.splits if_splits)
    moreover from a Cons True st have "r = snd (digits t)"
      by (auto simp: number_exp_def split: if_splits)
    ultimately show ?thesis
      using digits_length[of t] Cons by simp
  qed
qed

lemma number_length: "number s = Some (lx, r) \<Longrightarrow> length r < length s"
proof -
  assume a: "number s = Some (lx, r)"
  obtain sg r0 where s0: "(case s of [] \<Rightarrow> ([], s)
             | c # cs \<Rightarrow> if c = CHR ''-'' then ([c], cs) else ([], s)) = (sg, r0)"
    by (cases "(case s of [] \<Rightarrow> ([]::string, s)
             | c # cs \<Rightarrow> if c = CHR ''-'' then ([c], cs) else ([], s))") auto
  then have l0: "length r0 \<le> length s"
    by (auto split: list.splits if_splits)
  from a s0 obtain i r1 f r2 e where
    "number_int r0 = Some (i, r1)" "number_frac r1 = Some (f, r2)" "number_exp r2 = Some (e, r)"
    by (auto simp: number_def split: option.splits)
  then show ?thesis
    using l0 number_int_length number_frac_length number_exp_length
    by (metis le_trans not_le order.strict_trans1 nat_less_le)
qed

lemma literal_length: "literal s = Some (v, r) \<Longrightarrow> length r < length s"
  by (auto simp: literal_def split: if_splits) (cases s; auto)+

lemma skip_ws_Cons_length: "skip_ws s = c # cs \<Longrightarrow> length cs < length s"
  using skip_ws_length[of s] by simp

lemma enoughI:
  assumes "length r < length s"
    and "\<And>k. length s - length r \<le> Suc k \<Longrightarrow> f (Suc k) = Some x"
  shows "enough f s x r"
  unfolding enough_def
proof (intro conjI allI impI)
  show "length r < length s" by fact
  fix m assume m: "length s - length r \<le> m"
  with assms(1) obtain k where "m = Suc k"
    by (cases m) auto
  with m assms(2) show "f m = Some x" by simp
qed

lemma fuel_bound:
  "(\<forall>s v r. parse_value n s = Some (v, r) \<longrightarrow> enough (\<lambda>m. parse_value m s) s (v, r) r) \<and>
   (\<forall>s acc v r. parse_elements n s acc = Some (v, r) \<longrightarrow>
        enough (\<lambda>m. parse_elements m s acc) s (v, r) r) \<and>
   (\<forall>s acc v r. parse_members n s acc = Some (v, r) \<longrightarrow>
        enough (\<lambda>m. parse_members m s acc) s (v, r) r)"
proof (induction n)
  case 0
  show ?case by simp
next
  case (Suc n)
  note IHv = Suc.IH[THEN conjunct1, rule_format]
    and IHe = Suc.IH[THEN conjunct2, THEN conjunct1, rule_format]
    and IHm = Suc.IH[THEN conjunct2, THEN conjunct2, rule_format]
  have V: "enough (\<lambda>m. parse_value m s) s (v, r) r"
    if a: "parse_value (Suc n) s = Some (v, r)" for s v r
  proof -
    from a obtain c cs where w: "skip_ws s = c # cs"
      by (cases "skip_ws s") auto
    note lcs = skip_ws_Cons_length[OF w]
    consider (obj) "c = CHR ''{''" | (arr) "c \<noteq> CHR ''{''" "c = CHR ''[''"
      | (str) "c \<noteq> CHR ''{''" "c \<noteq> CHR ''[''" "c = CHR 0x22"
      | (num) "c \<noteq> CHR ''{''" "c \<noteq> CHR ''[''" "c \<noteq> CHR 0x22" "c = CHR ''-'' \<or> is_digit c"
      | (lit) "c \<noteq> CHR ''{''" "c \<noteq> CHR ''[''" "c \<noteq> CHR 0x22" "\<not> (c = CHR ''-'' \<or> is_digit c)"
      by blast
    then show ?thesis
    proof cases
      case obj
      from a w obj obtain d ds where w2: "skip_ws cs = d # ds"
        by (cases "skip_ws cs") auto
      note lds = skip_ws_Cons_length[OF w2]
      show ?thesis
      proof (cases "d = CHR ''}''")
        case True
        with a w obj w2 have "r = ds" "v = JObject []" by auto
        with lds lcs w obj w2 True show ?thesis
          by (intro enoughI) auto
      next
        case False
        with a w obj w2 have "parse_members n cs [] = Some (v, r)" by auto
        from IHm[OF this] have lr: "length r < length cs"
          and en: "\<And>m. length cs - length r \<le> m \<Longrightarrow> parse_members m cs [] = Some (v, r)"
          by (auto simp: enough_def)
        show ?thesis
        proof (rule enoughI)
          show "length r < length s" using lr lcs by simp
          fix k assume "length s - length r \<le> Suc k"
          with lr lcs have "length cs - length r \<le> k" by simp
          from en[OF this] w obj w2 False show "parse_value (Suc k) s = Some (v, r)"
            by simp
        qed
      qed
    next
      case arr
      from a w arr obtain d ds where w2: "skip_ws cs = d # ds"
        by (cases "skip_ws cs") auto
      note lds = skip_ws_Cons_length[OF w2]
      show ?thesis
      proof (cases "d = CHR '']''")
        case True
        with a w arr w2 have "r = ds" "v = JArray []" by auto
        with lds lcs w arr w2 True show ?thesis
          by (intro enoughI) auto
      next
        case False
        with a w arr w2 have "parse_elements n cs [] = Some (v, r)" by auto
        from IHe[OF this] have lr: "length r < length cs"
          and en: "\<And>m. length cs - length r \<le> m \<Longrightarrow> parse_elements m cs [] = Some (v, r)"
          by (auto simp: enough_def)
        show ?thesis
        proof (rule enoughI)
          show "length r < length s" using lr lcs by simp
          fix k assume "length s - length r \<le> Suc k"
          with lr lcs have "length cs - length r \<le> k" by simp
          from en[OF this] w arr w2 False show "parse_value (Suc k) s = Some (v, r)"
            by simp
        qed
      qed
    next
      case str
      with a w obtain t where sb: "string_body cs [] = Some (t, r)" and v: "v = JString t"
        by (auto split: option.splits)
      from string_body_length[OF sb] lcs have "length r < length s" by simp
      then show ?thesis
        using w str sb v by (intro enoughI) auto
    next
      case num
      with a w obtain lx where nb: "number (c # cs) = Some (lx, r)" and v: "v = JNumber lx"
        by (auto split: option.splits)
      from number_length[OF nb] lcs have "length r < length s" by simp
      then show ?thesis
        using w num nb v by (intro enoughI) auto
    next
      case lit
      with a w have lt: "literal (c # cs) = Some (v, r)"
        by auto
      from literal_length[OF lt] lcs have "length r < length s" by simp
      then show ?thesis
        using w lit lt by (intro enoughI) auto
    qed
  qed
  have E: "enough (\<lambda>m. parse_elements m s acc) s (v, r) r"
    if a: "parse_elements (Suc n) s acc = Some (v, r)" for s acc v r
  proof -
    from a obtain v1 r1 where pv: "parse_value n s = Some (v1, r1)"
      by (cases "parse_value n s") auto
    from IHv[OF pv] have l1: "length r1 < length s"
      and en1: "\<And>m. length s - length r1 \<le> m \<Longrightarrow> parse_value m s = Some (v1, r1)"
      by (auto simp: enough_def)
    from a pv obtain c cs where w: "skip_ws r1 = c # cs"
      by (cases "skip_ws r1") auto
    note lcs = skip_ws_Cons_length[OF w]
    show ?thesis
    proof (cases "c = CHR '',''")
      case True
      with a pv w have pe: "parse_elements n cs (acc @ [v1]) = Some (v, r)" by simp
      from IHe[OF pe] have lr: "length r < length cs"
        and en: "\<And>m. length cs - length r \<le> m \<Longrightarrow> parse_elements m cs (acc @ [v1]) = Some (v, r)"
        by (auto simp: enough_def)
      show ?thesis
      proof (rule enoughI)
        show "length r < length s" using lr lcs l1 by simp
        fix k assume k: "length s - length r \<le> Suc k"
        with lr lcs l1 have "length s - length r1 \<le> k" "length cs - length r \<le> k"
          by simp_all
        from en1[OF this(1)] en[OF this(2)] w True
        show "parse_elements (Suc k) s acc = Some (v, r)"
          by simp
      qed
    next
      case False
      with a pv w have c: "c = CHR '']''" and r: "r = cs" and v: "v = JArray (acc @ [v1])"
        by (auto split: if_splits)
      show ?thesis
      proof (rule enoughI)
        show "length r < length s" using r lcs l1 by simp
        fix k assume k: "length s - length r \<le> Suc k"
        with r lcs l1 have "length s - length r1 \<le> k"
          by simp
        from en1[OF this] w False c r v
        show "parse_elements (Suc k) s acc = Some (v, r)"
          by simp
      qed
    qed
  qed
  have M: "enough (\<lambda>m. parse_members m s acc) s (v, r) r"
    if a: "parse_members (Suc n) s acc = Some (v, r)" for s acc v r
  proof -
    from a obtain q qs where w0: "skip_ws s = q # qs"
      by (cases "skip_ws s") auto
    note lqs = skip_ws_Cons_length[OF w0]
    from a w0 have q: "q = CHR 0x22"
      by (auto split: if_splits)
    from a w0 q obtain key r0 where sb: "string_body qs [] = Some (key, r0)"
      by (cases "string_body qs []") auto
    from string_body_length[OF sb] lqs have l0: "length r0 < length s" by simp
    from a w0 q sb obtain c cs where w1: "skip_ws r0 = c # cs"
      by (cases "skip_ws r0") auto
    note lcs = skip_ws_Cons_length[OF w1]
    from a w0 q sb w1 have c: "c = CHR '':''"
      by (auto split: if_splits)
    from a w0 q sb w1 c obtain v1 r1 where pv: "parse_value n cs = Some (v1, r1)"
      by (cases "parse_value n cs") auto
    from IHv[OF pv] have l1: "length r1 < length cs"
      and en1: "\<And>m. length cs - length r1 \<le> m \<Longrightarrow> parse_value m cs = Some (v1, r1)"
      by (auto simp: enough_def)
    from a w0 q sb w1 c pv obtain d ds where w2: "skip_ws r1 = d # ds"
      by (cases "skip_ws r1") auto
    note lds = skip_ws_Cons_length[OF w2]
    show ?thesis
    proof (cases "d = CHR '',''")
      case True
      with a w0 q sb w1 c pv w2
      have pm: "parse_members n ds (acc @ [(key, v1)]) = Some (v, r)" by simp
      from IHm[OF pm] have lr: "length r < length ds"
        and en: "\<And>m. length ds - length r \<le> m \<Longrightarrow>
                   parse_members m ds (acc @ [(key, v1)]) = Some (v, r)"
        by (auto simp: enough_def)
      show ?thesis
      proof (rule enoughI)
        show "length r < length s" using lr lds l1 lcs l0 by simp
        fix k assume k: "length s - length r \<le> Suc k"
        with lr lds l1 lcs l0 have "length cs - length r1 \<le> k" "length ds - length r \<le> k"
          by simp_all
        from en1[OF this(1)] en[OF this(2)] w0 q sb w1 c w2 True
        show "parse_members (Suc k) s acc = Some (v, r)"
          by simp
      qed
    next
      case False
      with a w0 q sb w1 c pv w2
      have d: "d = CHR ''}''" and r: "r = ds" and v: "v = JObject (acc @ [(key, v1)])"
        by (auto split: if_splits)
      show ?thesis
      proof (rule enoughI)
        show "length r < length s" using r lds l1 lcs l0 by simp
        fix k assume k: "length s - length r \<le> Suc k"
        with r lds l1 lcs l0 have "length cs - length r1 \<le> k"
          by simp
        from en1[OF this] w0 q sb w1 c w2 False d r v
        show "parse_members (Suc k) s acc = Some (v, r)"
          by simp
      qed
    qed
  qed
  from V E M show ?case by blast
qed

lemma parse_value_fuel:
  assumes "parse_value n s = Some (v, r)"
  shows "parse_value (2 * length s + 2) s = Some (v, r)"
proof -
  have e: "enough (\<lambda>m. parse_value m s) s (v, r) r"
    using fuel_bound[of n, THEN conjunct1, rule_format, OF assms] .
  have "length s - length r \<le> 2 * length s + 2"
    by simp
  with e show ?thesis
    unfolding enough_def by blast
qed

lemma JSON_parse_any_fuel:
  "JSON_parse s = Some v \<longleftrightarrow> (\<exists>n r. parse_value n s = Some (v, r) \<and> skip_ws r = [])"
proof
  assume a: "JSON_parse s = Some v"
  then obtain r where "parse_value (2 * length s + 2) s = Some (v, r)" "skip_ws r = []"
    by (cases "parse_value (2 * length s + 2) s")
       (auto simp: JSON_parse_def simp del: parse_value.simps split: if_splits)
  then show "\<exists>n r. parse_value n s = Some (v, r) \<and> skip_ws r = []"
    by blast
next
  assume "\<exists>n r. parse_value n s = Some (v, r) \<and> skip_ws r = []"
  then obtain n r where "parse_value n s = Some (v, r)" "skip_ws r = []"
    by blast
  with parse_value_fuel[OF this(1)] show "JSON_parse s = Some v"
    by (simp add: JSON_parse_def del: parse_value.simps)
qed

subsection \<open>The status mapping\<close>

lemma JSON_parse_not_json:
  assumes "s = c # cs" and "c \<in> {CHR ''P'', CHR ''I'', CHR ''S''}"
  shows "JSON_parse s = None"
proof -
  have ws: "skip_ws s = c # cs"
    using assms by (auto simp: skip_ws_def is_ws_def)
  have lit: "literal (c # cs) = None"
    using assms(2) by (auto simp: literal_def)
  have "parse_value (Suc (2 * length s + 1)) s = None"
    using assms(2) ws lit by (auto simp: is_digit_def)
  then show ?thesis
    by (simp add: JSON_parse_def)
qed

lemma message_text_prefix:
  assumes "startsWith t p" and "p = c # q" and "c \<in> {CHR ''P'', CHR ''I'', CHR ''S''}"
  shows "message_text t = JString t"
proof -
  from assms(1,2) obtain cs where "t = c # cs"
    by (cases t) (auto simp: startsWith_def)
  then have "JSON_parse t = None"
    using assms(3) by (rule JSON_parse_not_json)
  then show ?thesis
    by (simp add: message_text_def)
qed

lemma catch_simple:
  "status r = 404 \<Longrightarrow> catchResponseErrors r = Inl (GraffitiErrorNotFound (message_text (response_text r)))"
  "status r = 403 \<Longrightarrow> catchResponseErrors r = Inl (GraffitiErrorForbidden (message_text (response_text r)))"
  "status r = 401 \<Longrightarrow> catchResponseErrors r = Inl (GraffitiErrorUnauthorized (message_text (response_text r)))"
  "status r = 410 \<Longrightarrow> catchResponseErrors r = Inr ()"
  "\<not> ok r \<Longrightarrow> status r \<notin> {404, 403, 401, 422, 412, 410} \<Longrightarrow>
     catchResponseErrors r = Inl (Error (message_text (response_text r)))"
  by (simp_all add: catchResponseErrors_def ok_def)

lemma catch_prefixed:
  assumes "message_text (response_text r) = JString s"
  shows "status r = 422 \<Longrightarrow> startsWith s ''PatchError'' \<Longrightarrow>
           catchResponseErrors r = Inl (GraffitiErrorPatchError (JString s))"
    and "status r = 422 \<Longrightarrow> startsWith s ''InvalidSchema'' \<Longrightarrow>
           catchResponseErrors r = Inl (GraffitiErrorInvalidSchema (JString s))"
    and "status r = 412 \<Longrightarrow> startsWith s ''PatchTestFailed'' \<Longrightarrow>
           catchResponseErrors r = Inl (GraffitiErrorPatchTestFailed (JString s))"
    and "status r = 412 \<Longrightarrow> startsWith s ''SchemaMismatch'' \<Longrightarrow>
           catchResponseErrors r = Inl (GraffitiErrorSchemaMismatch (JString s))"
proof -
  have a: "startsWith s ''InvalidSchema'' \<Longrightarrow> \<not> startsWith s ''PatchError''"
    by (cases s) (auto simp: startsWith_def)
  have b: "startsWith s ''SchemaMismatch'' \<Longrightarrow> \<not> startsWith s ''PatchTestFailed''"
    by (cases s) (auto simp: startsWith_def)
  show "status r = 422 \<Longrightarrow> startsWith s ''PatchError'' \<Longrightarrow>
           catchResponseErrors r = Inl (GraffitiErrorPatchError (JString s))"
    using assms by (simp add: catchResponseErrors_def ok_def text_startsWith_def)
  show "status r = 422 \<Longrightarrow> startsWith s ''InvalidSchema'' \<Longrightarrow>
           catchResponseErrors r = Inl (GraffitiErrorInvalidSchema (JString s))"
    using assms a by (simp add: catchResponseErrors_def ok_def text_startsWith_def)
  show "status r = 412 \<Longrightarrow> startsWith s ''PatchTestFailed'' \<Longrightarrow>
           catchResponseErrors r = Inl (GraffitiErrorPatchTestFailed (JString s))"
    using assms by (simp add: catchResponseErrors_def ok_def text_startsWith_def)
  show "status r = 412 \<Longrightarrow> startsWith s ''SchemaMismatch'' \<Longrightarrow>
           catchResponseErrors r = Inl (GraffitiErrorSchemaMismatch (JString s))"
    using assms b by (simp add: catchResponseErrors_def ok_def text_startsWith_def)
qed

lemma body_prefix_text:
  assumes "startsWith t p" and "p \<in> {''PatchError'', ''InvalidSchema'', ''PatchTestFailed'', ''SchemaMismatch''}"
  shows "message_text t = JString t"
  using assms(2)
proof (elim insertE emptyE)
  assume "p = ''PatchError''"
  with assms(1) show ?thesis by (intro message_text_prefix[of t p "CHR ''P''"]) auto
next
  assume "p = ''InvalidSchema''"
  with assms(1) show ?thesis by (intro message_text_prefix[of t p "CHR ''I''"]) auto
next
  assume "p = ''PatchTestFailed''"
  with assms(1) show ?thesis by (intro message_text_prefix[of t p "CHR ''P''"]) auto
next
  assume "p = ''SchemaMismatch''"
  with assms(1) show ?thesis by (intro message_text_prefix[of t p "CHR ''S''"]) auto
qed

subsection \<open>Parsing a response into an object\<close>

lemma parse_success:
  assumes "parseGraffitiObjectResponse D r loc g = Inr obj"
  shows "\<exists>v gmt ms lm chs alw.
        catchResponseErrors r = Inr () \<and>
        JSON_parse (response_text r) = Some v \<and>
        headers r ''last-modified'' = Some gmt \<and> gmt \<noteq> [] \<and>
        headers r ''last-modified-ms'' = Some ms \<and> ms \<noteq> [] \<and>
        setUTCMilliseconds (D gmt) (parseInt ms) = Some lm \<and>
        parseEncodedStringArrayHeader (headers r ''channels'') [] = Inr chs \<and>
        parseEncodedStringArrayHeader (headers r ''allowed'') () = Inr alw \<and>
        obj = \<lparr> actor = actor loc, source = source loc, name = name loc,
                tombstone = (\<not> g \<or> status r = 410), value' = v,
                channels = (case chs of Inl xs \<Rightarrow> xs | Inr nullValue \<Rightarrow> nullValue),
                allowed = (case alw of Inl xs \<Rightarrow> Some xs | Inr _ \<Rightarrow> None),
                lastModified = lm \<rparr>"
  using assms unfolding parseGraffitiObjectResponse_def
  by (auto split: sum.split_asm option.split_asm if_split_asm)

lemma parse_total:
  assumes "catchResponseErrors r = Inr ()"
    and "JSON_parse (response_text r) = Some v"
    and "headers r ''last-modified'' = Some gmt" and "gmt \<noteq> []"
    and "headers r ''last-modified-ms'' = Some ms" and "ms \<noteq> []"
    and "setUTCMilliseconds (D gmt) (parseInt ms) = Some lm"
    and "parseEncodedStringArrayHeader (headers r ''channels'') [] = Inr chs"
    and "parseEncodedStringArrayHeader (headers r ''allowed'') () = Inr alw"
  shows "parseGraffitiObjectResponse D r loc g =
           Inr \<lparr> actor = actor loc, source = source loc, name = name loc,
                tombstone = (\<not> g \<or> status r = 410), value' = v,
                channels = (case chs of Inl xs \<Rightarrow> xs | Inr nullValue \<Rightarrow> nullValue),
                allowed = (case alw of Inl xs \<Rightarrow> Some xs | Inr _ \<Rightarrow> None),
                lastModified = lm \<rparr>"
  using assms unfolding parseGraffitiObjectResponse_def by simp

lemma parse_status_error:
  "catchResponseErrors r = Inl e \<Longrightarrow> parseGraffitiObjectResponse D r loc g = Inl e"
  by (simp add: parseGraffitiObjectResponse_def)

lemma parse_tombstone:
  "parseGraffitiObjectResponse D r loc g = Inr obj \<Longrightarrow> tombstone obj = (\<not> g \<or> status r = 410)"
  by (auto dest!: parse_success)

lemma setUTCMilliseconds_Some:
  "setUTCMilliseconds a b = Some lm \<Longrightarrow>
     \<exists>t milli. a = Some t \<and> b = Some milli \<and> lm = t - t mod 1000 + milli \<and> \<bar>lm\<bar> \<le> 8640000000000000"
  by (auto simp: setUTCMilliseconds_def TimeClip_def split: option.splits if_splits)

lemma put_result:
  "GraffitiClient_put env this object target session = (Inr old, this') \<Longrightarrow>
     \<exists>loc url f d resp.
       put_target_location env target session = Inr (loc, url, f) \<and>
       addPod env (delegation this) (actor loc) (source loc) session = Inr d \<and>
       call_fetch env f (encodeQueryParams env url (ObjectParams object))
         (Some (encodeJSONBody env \<lparr> init_method = ''PUT'', init_headers = [], init_body = None \<rparr> (lo_value object))) = Inr resp \<and>
       parseGraffitiObjectResponse (Date_parse env) resp loc False = Inr old \<and>
       this' = this \<lparr> delegation := d, localChanges := localChanges_put env (localChanges this) object old \<rparr>"
  unfolding GraffitiClient_put_def
  by (auto simp: Let_def split: sum.splits prod.splits)

lemma put_failure:
  "GraffitiClient_put env this object target session = (Inl e, this') \<Longrightarrow>
     localChanges this' = localChanges this"
  unfolding GraffitiClient_put_def
  by (auto simp: Let_def split: sum.splits prod.splits)

lemma get_result:
  "GraffitiClient_get env this l session = (res, this') \<Longrightarrow> localChanges this' = localChanges this"
  unfolding GraffitiClient_get_def
  by (auto simp: Let_def split: sum.splits prod.splits if_splits)

lemma get_success:
  "GraffitiClient_get env this l session = (Inr obj, this') \<Longrightarrow>
    \<exists>loc url resp. parseLocationOrUrl env l = Inr (loc, url) \<and>
       call_fetch env (whichFetch session) url None = Inr resp \<and>
       parseGraffitiObjectResponse (Date_parse env) resp loc True = Inr obj"
  unfolding GraffitiClient_get_def
  by (auto simp: Let_def split: sum.splits prod.splits if_splits)

lemma delete_result:
  "GraffitiClient_delete env this l session = (Inr old, this') \<Longrightarrow>
     \<exists>loc url resp.
       parseLocationOrUrl env l = Inr (loc, url) \<and>
       call_fetch env (whichFetch session) url
         (Some \<lparr> init_method = ''DELETE'', init_headers = [], init_body = None \<rparr>) = Inr resp \<and>
       parseGraffitiObjectResponse (Date_parse env) resp loc False = Inr old \<and>
       this' = this \<lparr> localChanges := localChanges_delete env (localChanges this) old \<rparr>"
  unfolding GraffitiClient_delete_def
  by (auto simp: Let_def split: sum.splits prod.splits)

lemma delete_failure:
  "GraffitiClient_delete env this l session = (Inl e, this') \<Longrightarrow> this' = this"
  unfolding GraffitiClient_delete_def
  by (auto simp: Let_def split: sum.splits prod.splits)

lemma patch_result:
  "GraffitiClient_patch env this p l session = (Inr old, this') \<Longrightarrow>
     \<exists>loc url resp init q.
       parseLocationOrUrl env l = Inr (loc, url) \<and>
       call_fetch env (whichFetch session) q (Some init) = Inr resp \<and>
       parseGraffitiObjectResponse (Date_parse env) resp loc False = Inr old \<and>
       this' = this \<lparr> localChanges := localChanges_patch env (localChanges this) p old \<rparr>"
  unfolding GraffitiClient_patch_def
  by (auto simp: Let_def split: sum.splits prod.splits)

lemma patch_failure:
  "GraffitiClient_patch env this p l session = (Inl e, this') \<Longrightarrow> this' = this"
  unfolding GraffitiClient_patch_def
  by (auto simp: Let_def split: sum.splits prod.splits)

lemma header_array_only_URIError:
  "parseEncodedStringArrayHeader h nv \<noteq> Inl URIError \<Longrightarrow>
     \<exists>x. parseEncodedStringArrayHeader h nv = Inr x"
  by (auto simp: parseEncodedStringArrayHeader_def split: option.splits)

lemma passes_status_mapping:
  "(catchResponseErrors r = Inr ()) = (ok r \<or> status r = 410)"
  by (auto simp: catchResponseErrors_def Let_def split: sum.splits bool.splits)

subsection \<open>Splitting a header\<close>

lemma split_from_not_Nil: "split_from d cur s \<noteq> []"
  by (induction s arbitrary: cur) auto

lemma join_Cons: "ys \<noteq> [] \<Longrightarrow> join (x # ys) d = x @ d # join ys d"
  by (cases ys) auto

lemma join_split_from: "join (split_from d cur s) d = cur @ s"
  by (induction s arbitrary: cur) (auto simp: join_Cons split_from_not_Nil)

lemma split_from_no_separator:
  "d \<notin> set cur \<Longrightarrow> \<forall>x \<in> set (split_from d cur s). d \<notin> set x"
proof (induction s arbitrary: cur)
  case Nil
  then show ?case by simp
next
  case (Cons c s)
  show ?case
  proof (cases "c = d")
    case True
    with Cons.IH[of "[]"] Cons.prems show ?thesis by simp
  next
    case False
    with Cons.IH[of "cur @ [c]"] Cons.prems show ?thesis by simp
  qed
qed

lemma those_map_iff:
  "those (map f xs) = Some ys \<longleftrightarrow> list_all2 (\<lambda>x y. f x = Some y) xs ys"
proof (induction xs arbitrary: ys)
  case Nil
  then show ?case by auto
next
  case (Cons x xs)
  then show ?case
    by (cases ys) (auto split: option.splits)
qed

lemma header_array_cases:
  "parseEncodedStringArrayHeader None nv = Inr (Inr nv)"
  "parseEncodedStringArrayHeader (Some h) nv = Inr x \<Longrightarrow>
     \<exists>xs. x = Inl xs \<and>
       list_all2 (\<lambda>s d. decodeURIComponent s = Some d) (filter (\<lambda>s. s \<noteq> []) (split h CHR '','')) xs"
  by (auto simp: parseEncodedStringArrayHeader_def those_map_iff split: option.splits)

lemma split_empty: "filter (\<lambda>s. s \<noteq> []) (split [] d) = []"
  by (simp add: split_def)

subsection \<open>Iterators\<close>

lemma pull_Suc_fst: "fst (pull (Suc n) nxt s) = fst (nxt s) # fst (pull n nxt (snd (nxt s)))"
  by (simp split: prod.splits)

lemma pull_Suc_snd: "snd (pull (Suc n) nxt s) = snd (pull n nxt (snd (nxt s)))"
  by (simp split: prod.splits)

lemma pull_append_fst:
  "fst (pull (n + k) nxt s) = fst (pull n nxt s) @ fst (pull k nxt (snd (pull n nxt s)))"
  by (induction n arbitrary: s) (simp_all add: pull_Suc_fst pull_Suc_snd del: pull.simps(2))

lemma merged_next_local:
  "iter_next L sl = (r, sl') \<Longrightarrow> r \<noteq> IterDone \<Longrightarrow>
     merged_next L R (sl, sr) = (r, (sl', sr))"
  by (cases r) (simp_all add: merged_next_def)

lemma merged_next_remote:
  "iter_next L sl = (IterDone, sl') \<Longrightarrow> iter_next R sr = (r, sr') \<Longrightarrow>
     merged_next L R (sl, sr) = (r, (sl', sr'))"
  by (simp add: merged_next_def)

lemma pull_merged_local:
  "pull n (iter_next L) sl = (rs, sl') \<Longrightarrow> IterDone \<notin> set rs \<Longrightarrow>
     pull n (merged_next L R) (sl, sr) = (rs, (sl', sr))"
proof (induction n arbitrary: sl rs)
  case 0
  then show ?case by simp
next
  case (Suc n)
  obtain r s1 where step: "iter_next L sl = (r, s1)"
    by (cases "iter_next L sl")
  obtain rs1 s2 where rest: "pull n (iter_next L) s1 = (rs1, s2)"
    by (cases "pull n (iter_next L) s1")
  from Suc.prems(1) step rest have eq: "rs = r # rs1" "sl' = s2"
    by simp_all
  with Suc.prems(2) have "r \<noteq> IterDone" "IterDone \<notin> set rs1"
    by auto
  with step rest eq Suc.IH[of s1 rs1] show ?case
    by (simp add: merged_next_local)
qed

lemma stays_done_step:
  assumes "stays_done nxt s"
  shows "fst (nxt s) = IterDone" and "stays_done nxt (snd (nxt s))"
proof -
  from assms have "fst (pull 1 nxt s) = [IterDone]"
    unfolding stays_done_def by (metis One_nat_def replicate.simps(1) replicate_Suc)
  then show d: "fst (nxt s) = IterDone"
    by (simp split: prod.splits)
  show "stays_done nxt (snd (nxt s))"
    unfolding stays_done_def
  proof
    fix k
    from assms have "fst (pull (Suc k) nxt s) = replicate (Suc k) IterDone"
      unfolding stays_done_def by blast
    then show "fst (pull k nxt (snd (nxt s))) = replicate k IterDone"
      by (simp split: prod.splits)
  qed
qed

lemma pull_merged_remote:
  "stays_done (iter_next L) sl \<Longrightarrow>
     fst (pull k (merged_next L R) (sl, sr)) = fst (pull k (iter_next R) sr)"
proof (induction k arbitrary: sl sr)
  case 0
  then show ?case by simp
next
  case (Suc k)
  obtain sl1 where l: "iter_next L sl = (IterDone, sl1)"
    using stays_done_step(1)[OF Suc.prems] by (cases "iter_next L sl") auto
  then have d: "stays_done (iter_next L) sl1"
    using stays_done_step(2)[OF Suc.prems] by simp
  obtain r sr1 where rr: "iter_next R sr = (r, sr1)"
    by (cases "iter_next R sr")
  from Suc.IH[OF d, of sr1] l rr show ?case
    by (simp add: pull_Suc_fst merged_next_remote del: pull.simps(2))
qed

lemma stays_done_list: "stays_done list_next []"
  unfolding stays_done_def
proof
  fix k show "fst (pull k list_next ([] :: 'a list)) = replicate k IterDone"
    by (induction k) (auto split: prod.splits)
qed

lemma pull_list: "pull (length xs) list_next xs = (map IterValue xs, [])"
  by (induction xs) auto

subsection \<open>The read loop against the spec's wire format\<close>

lemma spec_lines_no_newline:
  "newLineUint8 \<notin> set bs \<Longrightarrow> spec_lines cur bs = ([], cur @ bs)"
  by (induction bs arbitrary: cur) auto

lemma spec_lines_at_newline:
  "newLineUint8 \<notin> set xs \<Longrightarrow>
     spec_lines cur (xs @ newLineUint8 # ys)
       = ((cur @ xs) # fst (spec_lines [] ys), snd (spec_lines [] ys))"
  by (induction xs arbitrary: cur) auto

lemma spec_lines_append:
  "spec_lines cur (xs @ ys)
     = (fst (spec_lines cur xs) @ fst (spec_lines (snd (spec_lines cur xs)) ys),
        snd (spec_lines (snd (spec_lines cur xs)) ys))"
  by (induction xs arbitrary: cur) auto

lemma spec_lines_buffer:
  "newLineUint8 \<notin> set cur \<Longrightarrow> spec_lines [] (cur @ ys) = spec_lines cur ys"
  by (simp add: spec_lines_append[of "[]" cur ys] spec_lines_no_newline)

lemma spec_lines_rest:
  "newLineUint8 \<notin> set cur \<Longrightarrow> newLineUint8 \<notin> set (snd (spec_lines cur bs))"
  by (induction bs arbitrary: cur) auto

lemma split_at_first:
  "x \<in> set ys \<Longrightarrow> ys = takeWhile (\<lambda>y. y \<noteq> x) ys @ x # tl (dropWhile (\<lambda>y. y \<noteq> x) ys)"
  by (induction ys) auto

lemma line_loop_spec:
  "start \<le> length c \<Longrightarrow>
     fst (line_loop c start) = fst (spec_lines [] (drop start c)) \<and>
     drop (snd (line_loop c start)) c = snd (spec_lines [] (drop start c))"
proof (induction c start rule: line_loop.induct)
  case (1 c start)
  show ?case
  proof (cases "start < length c")
    case False
    then have "line_loop c start = ([], start)"
      by (subst line_loop.simps) simp
    with False "1.prems" show ?thesis
      by simp
  next
    case True
    show ?thesis
    proof (cases "newLineUint8 \<in> set (drop start c)")
      case False
      then have "indexOf c newLineUint8 start = None"
        by (simp add: indexOf_def)
      with True False show ?thesis
        by (simp add: line_loop.simps[of c start] spec_lines_no_newline)
    next
      case nl: True
      let ?ys = "drop start c"
      let ?pre = "takeWhile (\<lambda>y. y \<noteq> newLineUint8) ?ys"
      let ?post = "tl (dropWhile (\<lambda>y. y \<noteq> newLineUint8) ?ys)"
      let ?stop = "start + length ?pre"
      have idx: "indexOf c newLineUint8 start = Some ?stop"
        using nl by (simp add: indexOf_def)
      have ys: "?ys = ?pre @ newLineUint8 # ?post"
        using nl by (rule split_at_first)
      have pre_clean: "newLineUint8 \<notin> set ?pre"
        by (auto dest: set_takeWhileD)
      have len: "length ?ys = length ?pre + 1 + length ?post"
        using arg_cong[OF ys, of length] by simp
      then have stop_lt: "?stop + 1 \<le> length c"
        using True by simp
      have "drop (?stop + 1) c = drop (length ?pre + 1) ?ys"
        by (simp add: add.commute add.left_commute)
      also have "\<dots> = ?post"
        using arg_cong[OF ys, of "drop (length ?pre + 1)"] by simp
      finally have drop_stop: "drop (?stop + 1) c = ?post" .
      have sl: "slice c start ?stop = ?pre"
        using arg_cong[OF ys, of "take (length ?pre)"] by (simp add: slice_def)
      have spec: "spec_lines [] ?ys = (?pre # fst (spec_lines [] ?post), snd (spec_lines [] ?post))"
        using spec_lines_at_newline[OF pre_clean, of "[]" ?post] ys by simp
      from "1.IH"[OF True idx stop_lt] drop_stop
      have ih: "fst (line_loop c (?stop + 1)) = fst (spec_lines [] ?post)"
               "drop (snd (line_loop c (?stop + 1))) c = snd (spec_lines [] ?post)"
        by simp_all
      show ?thesis
        using True idx sl ih spec
        by (simp add: line_loop.simps[of c start] case_prod_unfold)
    qed
  qed
qed

lemma read_loop_spec:
  "newLineUint8 \<notin> set buffer \<Longrightarrow> read_loop buffer chunks = spec_lines buffer (concat chunks)"
proof (induction chunks arbitrary: buffer)
  case Nil
  then show ?case by simp
next
  case (Cons chunk rest)
  let ?c = "buffer @ chunk"
  have ll: "fst (line_loop ?c 0) = fst (spec_lines [] ?c)"
           "drop (snd (line_loop ?c 0)) ?c = snd (spec_lines [] ?c)"
    using line_loop_spec[of 0 ?c] by simp_all
  have clean: "newLineUint8 \<notin> set (snd (spec_lines [] ?c))"
    by (rule spec_lines_rest) simp
  have "read_loop buffer (chunk # rest)
          = (fst (line_loop ?c 0) @ fst (read_loop (drop (snd (line_loop ?c 0)) ?c) rest),
             snd (read_loop (drop (snd (line_loop ?c 0)) ?c) rest))"
    by (simp add: Let_def case_prod_unfold del: drop_append)
  also have "\<dots> = (fst (spec_lines [] ?c) @ fst (read_loop (snd (spec_lines [] ?c)) rest),
             snd (read_loop (snd (spec_lines [] ?c)) rest))"
    by (simp only: ll)
  also have "read_loop (snd (spec_lines [] ?c)) rest
               = spec_lines (snd (spec_lines [] ?c)) (concat rest)"
    using clean by (rule Cons.IH)
  also have "(fst (spec_lines [] ?c) @ fst (spec_lines (snd (spec_lines [] ?c)) (concat rest)),
              snd (spec_lines (snd (spec_lines [] ?c)) (concat rest)))
               = spec_lines [] (?c @ concat rest)"
    by (rule spec_lines_append[of "[]" ?c "concat rest", symmetric])
  also have "\<dots> = spec_lines buffer (concat (chunk # rest))"
    using spec_lines_buffer[OF Cons.prems, of "chunk @ concat rest"] by simp
  finally show ?case .
qed

lemma catch_same_text:
  "status r = status r' \<Longrightarrow> response_text r = response_text r' \<Longrightarrow>
     catchResponseErrors r = catchResponseErrors r'"
  unfolding catchResponseErrors_def ok_def by (simp only:)

subsection \<open>Merged streams\<close>

lemma merged_subseq:
  "merged ss out \<Longrightarrow> i < length ss \<Longrightarrow> subseq (ss ! i) out"
proof (induction arbitrary: i rule: merged.induct)
  case (merged_done ss)
  then have "ss ! i = []"
    by (metis nth_mem)
  then show ?case by simp
next
  case (merged_step j ss x xs out)
  show ?case
  proof (cases "i = j")
    case True
    with merged_step.IH[of j] merged_step.hyps show ?thesis
      by simp
  next
    case False
    with merged_step.IH[of i] merged_step.prems show ?thesis
      by (simp add: list_emb_Cons)
  qed
qed

lemma sum_list_replace:
  fixes ns :: "nat list"
  shows "i < length ns \<Longrightarrow> sum_list (ns[i := m]) + ns ! i = sum_list ns + m"
proof (induction ns arbitrary: i)
  case Nil
  then show ?case by simp
next
  case (Cons n ns)
  then show ?case
    by (cases i) auto
qed

lemma merged_length:
  "merged ss out \<Longrightarrow> length out = sum_list (map length ss)"
proof (induction rule: merged.induct)
  case (merged_done ss)
  then have "map length ss = map (\<lambda>_. 0) ss"
    by simp
  then show ?case by simp
next
  case (merged_step i ss x xs out)
  have "sum_list ((map length ss)[i := length xs]) + (map length ss) ! i
          = sum_list (map length ss) + length xs"
    using merged_step.hyps(1) by (intro sum_list_replace) simp
  then have "sum_list (map length ss) = sum_list ((map length ss)[i := length xs]) + 1"
    using merged_step.hyps(1,2) by simp
  then show ?case
    using merged_step.IH by (simp add: map_update)
qed

lemma wire_throw_yields_nothing:
  "parseJSONLinesResponse response' src lineParser = (els, Some e) \<Longrightarrow> els = []"
  unfolding parseJSONLinesResponse_def
  by (auto simp: Let_def case_prod_unfold split: sum.splits option.splits if_splits)

lemma pod_stream_ok:
  assumes "fetch_pod p = Inr r" and "status r = 200" and "body r = Some chunks"
  shows "pod_stream fetch_pod on_record p
           = map (\<lambda>l. parseJSONLine (decoder_decode l) (\<lambda>j. on_record j p) p)
               (wire_lines (concat chunks))"
proof -
  have "r = r \<lparr> body := Some chunks \<rparr>"
    using assms(3) by simp
  then have "parseJSONLinesResponse (Inr r) p (\<lambda>j. on_record j p)
          = (map (\<lambda>l. parseJSONLine (decoder_decode l) (\<lambda>j. on_record j p) p)
               (wire_lines (concat chunks)), None)"
    using read_loop_spec[of "[]" chunks] assms(2)
    by (simp add: parseJSONLinesResponse_def catchResponseErrors_def ok_def assms(3)
          wire_lines_def case_prod_unfold Let_def del: read_loop.simps)
  then show ?thesis
    by (simp add: pod_stream_def assms(1))
qed

lemma pod_stream_failed:
  assumes "parseJSONLinesResponse (fetch_pod p) p (\<lambda>j. on_record j p) = (els, Some e)"
  shows "pod_stream fetch_pod on_record p = [Failure (as_Error e) p]"
  using assms wire_throw_yields_nothing[OF assms] by (simp add: pod_stream_def)

section \<open>The claims\<close>

text \<open>
  C1 (as amended). The response status maps to the outcome of every remote CRUD call
  (all four go through \<^const>\<open>parseGraffitiObjectResponse\<close>, with either flag) as a fixed
  function of the status and of the error text, where the error text is the body text,
  or the member \<^verbatim>\<open>message\<close> when the body parses to a JSON object that has one: 404 fails
  with NotFound, 403 with Forbidden, 401 with Unauthorized; 422 with an error text that
  starts with "PatchError" fails with PatchError, with "InvalidSchema" with InvalidSchema;
  412 with "PatchTestFailed" fails with PatchTestFailed, with "SchemaMismatch" with
  SchemaMismatch; a body text that itself starts with one of the four prefixes is the
  error text; 410 raises no error; every other status that is not ok fails with a generic
  error. Every error carries the error text.
\<close>

theorem status_mapping:
  fixes r :: response
  shows
   "(status r = 404 \<longrightarrow> parseGraffitiObjectResponse D r loc isGet
        = Inl (GraffitiErrorNotFound (message_text (response_text r)))) \<and>
    (status r = 403 \<longrightarrow> parseGraffitiObjectResponse D r loc isGet
        = Inl (GraffitiErrorForbidden (message_text (response_text r)))) \<and>
    (status r = 401 \<longrightarrow> parseGraffitiObjectResponse D r loc isGet
        = Inl (GraffitiErrorUnauthorized (message_text (response_text r)))) \<and>
    (status r = 422 \<and> message_text (response_text r) = JString s \<and> startsWith s ''PatchError''
        \<longrightarrow> parseGraffitiObjectResponse D r loc isGet = Inl (GraffitiErrorPatchError (JString s))) \<and>
    (status r = 422 \<and> message_text (response_text r) = JString s \<and> startsWith s ''InvalidSchema''
        \<longrightarrow> parseGraffitiObjectResponse D r loc isGet = Inl (GraffitiErrorInvalidSchema (JString s))) \<and>
    (status r = 412 \<and> message_text (response_text r) = JString s \<and> startsWith s ''PatchTestFailed''
        \<longrightarrow> parseGraffitiObjectResponse D r loc isGet = Inl (GraffitiErrorPatchTestFailed (JString s))) \<and>
    (status r = 412 \<and> message_text (response_text r) = JString s \<and> startsWith s ''SchemaMismatch''
        \<longrightarrow> parseGraffitiObjectResponse D r loc isGet = Inl (GraffitiErrorSchemaMismatch (JString s))) \<and>
    (p \<in> {''PatchError'', ''InvalidSchema'', ''PatchTestFailed'', ''SchemaMismatch''}
       \<and> startsWith (response_text r) p
        \<longrightarrow> message_text (response_text r) = JString (response_text r)) \<and>
    (status r = 410 \<longrightarrow> catchResponseErrors r = Inr ()) \<and>
    (\<not> ok r \<and> status r \<notin> {404, 403, 401, 422, 412, 410}
        \<longrightarrow> parseGraffitiObjectResponse D r loc isGet
              = Inl (Error (message_text (response_text r))))"
  by (intro conjI impI parse_status_error)
     (auto simp: catch_simple catch_prefixed body_prefix_text)

theorem status_mapping_witness:
  "parseGraffitiObjectResponse example_Date_parse
      (example_response 404 [] [''no such object'']) example_location True
     = Inl (GraffitiErrorNotFound (JString ''no such object'')) \<and>
   parseGraffitiObjectResponse example_Date_parse
      (example_response 422 [] [''PatchError: bad path'']) example_location False
     = Inl (GraffitiErrorPatchError (JString ''PatchError: bad path'')) \<and>
   parseGraffitiObjectResponse example_Date_parse
      (example_response 412 [] [''{'' @ quoted ''message'' @ '':'' @ quoted ''SchemaMismatch'' @ ''}''])
      example_location False
     = Inl (GraffitiErrorSchemaMismatch (JString ''SchemaMismatch'')) \<and>
   catchResponseErrors (example_response 410 [] [''{}'']) = Inr () \<and>
   parseGraffitiObjectResponse example_Date_parse
      (example_response 500 [] [''down'']) example_location True
     = Inl (Error (JString ''down''))"
proof -
  let ?D = example_Date_parse and ?l = example_location
  let ?r1 = "example_response 404 [] [''no such object'']"
  let ?r2 = "example_response 422 [] [''PatchError: bad path'']"
  let ?r3 = "example_response 412 [] [''{'' @ quoted ''message'' @ '':'' @ quoted ''SchemaMismatch'' @ ''}'']"
  let ?r4 = "example_response 410 [] [''{}'']"
  let ?r5 = "example_response 500 [] [''down'']"
  have m1: "message_text (response_text ?r1) = JString ''no such object''"
    by code_simp
  have m2: "message_text (response_text ?r2) = JString ''PatchError: bad path''"
    by code_simp
  have m3: "message_text (response_text ?r3) = JString ''SchemaMismatch''"
    by code_simp
  have m5: "message_text (response_text ?r5) = JString ''down''"
    by code_simp
  have c1: "parseGraffitiObjectResponse ?D ?r1 ?l True = Inl (GraffitiErrorNotFound (JString ''no such object''))"
    using status_mapping[where r = ?r1 and D = ?D and loc = ?l and isGet = True] m1 by (simp add: example_response_def)
  have c2: "parseGraffitiObjectResponse ?D ?r2 ?l False = Inl (GraffitiErrorPatchError (JString ''PatchError: bad path''))"
    using status_mapping[where r = ?r2 and s = "''PatchError: bad path''" and D = ?D and loc = ?l and isGet = False] m2
    by (simp add: example_response_def startsWith_def)
  have c3: "parseGraffitiObjectResponse ?D ?r3 ?l False = Inl (GraffitiErrorSchemaMismatch (JString ''SchemaMismatch''))"
    using status_mapping[where r = ?r3 and s = "''SchemaMismatch''" and D = ?D and loc = ?l and isGet = False] m3
    by (simp add: example_response_def startsWith_def)
  have c4: "catchResponseErrors ?r4 = Inr ()"
    using status_mapping[where r = ?r4] by (simp add: example_response_def)
  have c5: "parseGraffitiObjectResponse ?D ?r5 ?l True = Inl (Error (JString ''down''))"
    using status_mapping[where r = ?r5 and D = ?D and loc = ?l and isGet = True] m5 by (simp add: example_response_def ok_def)
  from c1 c2 c3 c4 c5 show ?thesis by simp
qed

theorem status_mapping_counterexample:
  "parseGraffitiObjectResponse example_Date_parse
      (example_response 500 [] [''{'' @ quoted ''message'' @ '':'' @ quoted ''boom'' @ ''}''])
      example_location True
     = Inl (Error (JString ''boom'')) \<and>
   response_text (example_response 500 [] [''{'' @ quoted ''message'' @ '':'' @ quoted ''boom'' @ ''}''])
     \<noteq> ''boom''"
  by code_simp

text \<open>
  C2. An object returned by \<^verbatim>\<open>get\<close> is a tombstone exactly when the status of the
  response is 410; the previous object returned by \<^verbatim>\<open>put\<close>, \<^verbatim>\<open>patch\<close> and \<^verbatim>\<open>delete\<close> is
  a tombstone whatever the status. (The last conjunct is the flag as the parser sets it.)
\<close>

theorem tombstone_flag:
  "(fst (GraffitiClient_get env this l session) = Inr obj \<longrightarrow>
      (\<exists>loc url resp. parseLocationOrUrl env l = Inr (loc, url) \<and>
         call_fetch env (whichFetch session) url None = Inr resp \<and>
         tombstone obj = (status resp = 410))) \<and>
   (fst (GraffitiClient_put env this object target session) = Inr oldPut \<longrightarrow> tombstone oldPut) \<and>
   (fst (GraffitiClient_patch env this p l session) = Inr oldPatch \<longrightarrow> tombstone oldPatch) \<and>
   (fst (GraffitiClient_delete env this l session) = Inr oldDelete \<longrightarrow> tombstone oldDelete) \<and>
   (parseGraffitiObjectResponse D r lc isGet = Inr parsed \<longrightarrow>
      tombstone parsed = (\<not> isGet \<or> status r = 410))"
proof (intro conjI impI)
  assume "fst (GraffitiClient_get env this l session) = Inr obj"
  then have "GraffitiClient_get env this l session
               = (Inr obj, snd (GraffitiClient_get env this l session))"
    by (metis prod.collapse)
  then obtain loc url resp where
      "parseLocationOrUrl env l = Inr (loc, url)"
      "call_fetch env (whichFetch session) url None = Inr resp"
      "parseGraffitiObjectResponse (Date_parse env) resp loc True = Inr obj"
    using get_success by blast
  then show "\<exists>loc url resp. parseLocationOrUrl env l = Inr (loc, url) \<and>
         call_fetch env (whichFetch session) url None = Inr resp \<and>
         tombstone obj = (status resp = 410)"
    using parse_tombstone by fastforce
next
  assume "fst (GraffitiClient_put env this object target session) = Inr oldPut"
  then have "GraffitiClient_put env this object target session
               = (Inr oldPut, snd (GraffitiClient_put env this object target session))"
    by (metis prod.collapse)
  from put_result[OF this] show "tombstone oldPut"
    using parse_tombstone by fastforce
next
  assume "fst (GraffitiClient_patch env this p l session) = Inr oldPatch"
  then have "GraffitiClient_patch env this p l session
               = (Inr oldPatch, snd (GraffitiClient_patch env this p l session))"
    by (metis prod.collapse)
  from patch_result[OF this] show "tombstone oldPatch"
    using parse_tombstone by fastforce
next
  assume "fst (GraffitiClient_delete env this l session) = Inr oldDelete"
  then have "GraffitiClient_delete env this l session
               = (Inr oldDelete, snd (GraffitiClient_delete env this l session))"
    by (metis prod.collapse)
  from delete_result[OF this] show "tombstone oldDelete"
    using parse_tombstone by fastforce
next
  assume "parseGraffitiObjectResponse D r lc isGet = Inr parsed"
  then show "tombstone parsed = (\<not> isGet \<or> status r = 410)"
    by (rule parse_tombstone)
qed

theorem tombstone_flag_witness:
  "(\<exists>obj. fst (GraffitiClient_get (example_environment (example_response 410 example_headers [''{}'']))
               example_client (Location example_location) None) = Inr obj \<and> tombstone obj) \<and>
   (\<exists>obj. fst (GraffitiClient_get (example_environment (example_response 200 example_headers [''{}'']))
               example_client (Location example_location) None) = Inr obj \<and> \<not> tombstone obj) \<and>
   (\<exists>old. fst (GraffitiClient_put (example_environment (example_response 200 example_headers [''{}'']))
               example_client example_local_object example_target None) = Inr old \<and> tombstone old) \<and>
   (\<exists>old. fst (GraffitiClient_patch (example_environment (example_response 200 example_headers [''{}'']))
               example_client example_patch (Location example_location) None) = Inr old \<and> tombstone old) \<and>
   (\<exists>old. fst (GraffitiClient_delete (example_environment (example_response 200 example_headers [''{}'']))
               example_client (Location example_location) None) = Inr old \<and> tombstone old)"
proof -
  let ?E = "\<lambda>st. example_environment (example_response st example_headers [''{}''])"
  have fetch: "\<And>st f url init resp. call_fetch (?E st) f url init = Inr resp \<Longrightarrow> status resp = st"
    by (auto simp: example_environment_def example_response_def)
  have g1: "fst (GraffitiClient_get (?E 410) example_client (Location example_location) None)
              = Inr (example_object True)"
    by code_simp
  have g2: "fst (GraffitiClient_get (?E 200) example_client (Location example_location) None)
              = Inr (example_object False)"
    by code_simp
  have p: "fst (GraffitiClient_put (?E 200) example_client example_local_object example_target None)
              = Inr (example_object True)"
    by code_simp
  have pa: "fst (GraffitiClient_patch (?E 200) example_client example_patch (Location example_location) None)
              = Inr (example_object True)"
    by code_simp
  have d: "fst (GraffitiClient_delete (?E 200) example_client (Location example_location) None)
              = Inr (example_object True)"
    by code_simp
  have t1: "tombstone (example_object True)"
    using tombstone_flag[where env = "?E 410" and this = example_client
        and l = "Location example_location" and session = None and obj = "example_object True"]
      g1 fetch[of 410] by blast
  have t2: "\<not> tombstone (example_object False)"
    using tombstone_flag[where env = "?E 200" and this = example_client
        and l = "Location example_location" and session = None and obj = "example_object False"]
      g2 fetch[of 200] by (metis numeral_eq_iff semiring_norm(87,89))
  have t3: "tombstone (example_object True)"
    using tombstone_flag[where env = "?E 200" and this = example_client
        and object = example_local_object and target = example_target and session = None
        and oldPut = "example_object True"] p by simp
  have t4: "tombstone (example_object True)"
    using tombstone_flag[where env = "?E 200" and this = example_client
        and p = example_patch and l = "Location example_location" and session = None
        and oldPatch = "example_object True"] pa by simp
  have t5: "tombstone (example_object True)"
    using tombstone_flag[where env = "?E 200" and this = example_client
        and l = "Location example_location" and session = None
        and oldDelete = "example_object True"] d by simp
  from g1 g2 p pa d t1 t2 t3 t4 t5 show ?thesis by blast
qed

text \<open>
  C3. For a response that passes the status mapping, the call fails with a plain \<^verbatim>\<open>Error\<close>
  when the header \<^verbatim>\<open>last-modified\<close> is absent, when \<^verbatim>\<open>last-modified-ms\<close> is absent, when
  the combined timestamp is \<^verbatim>\<open>NaN\<close>, or when the body is not JSON; and the object that is
  returned has as \<^verbatim>\<open>lastModified\<close> the date of the GMT header with its milliseconds
  replaced by the number in the companion header (and as value the parsed body). The last
  conjunct says when an object is returned: the body is JSON, both headers are present and
  not empty, the timestamp is a number, and the \<^verbatim>\<open>channels\<close> and \<^verbatim>\<open>allowed\<close> headers
  percent-decode (the one failure left after the four checks is their \<^verbatim>\<open>URIError\<close>).
\<close>

theorem strict_response_parsing:
  assumes "catchResponseErrors r = Inr ()"
  shows
   "((headers r ''last-modified'' = None \<or> headers r ''last-modified-ms'' = None \<or>
      JSON_parse (response_text r) = None \<or>
      (\<exists>gmt ms. headers r ''last-modified'' = Some gmt \<and> headers r ''last-modified-ms'' = Some ms \<and>
                setUTCMilliseconds (D gmt) (parseInt ms) = None))
      \<longrightarrow> (\<exists>m. parseGraffitiObjectResponse D r loc isGet = Inl (Error (JString m)))) \<and>
    (parseGraffitiObjectResponse D r loc isGet = Inr obj \<longrightarrow>
      (\<exists>gmt ms t milli.
          headers r ''last-modified'' = Some gmt \<and> headers r ''last-modified-ms'' = Some ms \<and>
          D gmt = Some t \<and> parseInt ms = Some milli \<and>
          lastModified obj = t - t mod 1000 + milli \<and>
          JSON_parse (response_text r) = Some (value' obj))) \<and>
    (JSON_parse (response_text r) = Some v \<and>
     headers r ''last-modified'' = Some gmt \<and> gmt \<noteq> [] \<and>
     headers r ''last-modified-ms'' = Some ms \<and> ms \<noteq> [] \<and>
     setUTCMilliseconds (D gmt) (parseInt ms) = Some lm \<and>
     parseEncodedStringArrayHeader (headers r ''channels'') ([] :: string list) \<noteq> Inl URIError \<and>
     parseEncodedStringArrayHeader (headers r ''allowed'') () \<noteq> Inl URIError
      \<longrightarrow> (\<exists>made. parseGraffitiObjectResponse D r loc isGet = Inr made \<and>
                  lastModified made = lm \<and> value' made = v))"
proof (intro conjI impI)
  assume bad: "headers r ''last-modified'' = None \<or> headers r ''last-modified-ms'' = None \<or>
      JSON_parse (response_text r) = None \<or>
      (\<exists>gmt ms. headers r ''last-modified'' = Some gmt \<and> headers r ''last-modified-ms'' = Some ms \<and>
                setUTCMilliseconds (D gmt) (parseInt ms) = None)"
  show "\<exists>m. parseGraffitiObjectResponse D r loc isGet = Inl (Error (JString m))"
    using assms bad unfolding parseGraffitiObjectResponse_def
    by (auto split: option.splits)
next
  assume "parseGraffitiObjectResponse D r loc isGet = Inr obj"
  from parse_success[OF this] obtain v gmt ms lm where
    h: "JSON_parse (response_text r) = Some v" "headers r ''last-modified'' = Some gmt"
       "headers r ''last-modified-ms'' = Some ms"
       "setUTCMilliseconds (D gmt) (parseInt ms) = Some lm"
       "lastModified obj = lm" "value' obj = v"
    by auto
  from setUTCMilliseconds_Some[OF h(4)] h
  show "\<exists>gmt ms t milli.
          headers r ''last-modified'' = Some gmt \<and> headers r ''last-modified-ms'' = Some ms \<and>
          D gmt = Some t \<and> parseInt ms = Some milli \<and>
          lastModified obj = t - t mod 1000 + milli \<and>
          JSON_parse (response_text r) = Some (value' obj)"
    by auto
next
  assume a: "JSON_parse (response_text r) = Some v \<and>
     headers r ''last-modified'' = Some gmt \<and> gmt \<noteq> [] \<and>
     headers r ''last-modified-ms'' = Some ms \<and> ms \<noteq> [] \<and>
     setUTCMilliseconds (D gmt) (parseInt ms) = Some lm \<and>
     parseEncodedStringArrayHeader (headers r ''channels'') ([] :: string list) \<noteq> Inl URIError \<and>
     parseEncodedStringArrayHeader (headers r ''allowed'') () \<noteq> Inl URIError"
  then obtain chs alw where
    "parseEncodedStringArrayHeader (headers r ''channels'') ([] :: string list) = Inr chs"
    "parseEncodedStringArrayHeader (headers r ''allowed'') () = Inr alw"
    using header_array_only_URIError[of "headers r ''channels''" "[] :: string list"]
      header_array_only_URIError[of "headers r ''allowed''" "()"]
    by blast
  with a parse_total[OF assms, of v gmt ms D lm chs alw loc isGet]
  show "\<exists>made. parseGraffitiObjectResponse D r loc isGet = Inr made \<and>
                  lastModified made = lm \<and> value' made = v"
    by simp
qed

theorem strict_response_parsing_witness:
  "catchResponseErrors (example_response 200 example_headers [''{}'']) = Inr () \<and>
   (\<exists>m. parseGraffitiObjectResponse example_Date_parse
          (example_response 200 [(''last-modified'', ''Thu, 01 Jan 1970 00:00:01 GMT'')] [''{}''])
          example_location True = Inl (Error (JString m))) \<and>
   (\<exists>m. parseGraffitiObjectResponse example_Date_parse
          (example_response 200 example_headers [''{oops'']) example_location True
        = Inl (Error (JString m))) \<and>
   parseGraffitiObjectResponse example_Date_parse
      (example_response 200 example_headers [''{}'']) example_location True
     = Inr (example_object False) \<and>
   lastModified (example_object False) = 1000 - 1000 mod 1000 + 234"
proof -
  let ?D = example_Date_parse and ?l = example_location
  let ?good = "example_response 200 example_headers [''{}'']"
  let ?nohdr = "example_response 200 [(''last-modified'', ''Thu, 01 Jan 1970 00:00:01 GMT'')] [''{}'']"
  let ?nojson = "example_response 200 example_headers [''{oops'']"
  have ok1: "catchResponseErrors ?good = Inr ()" by code_simp
  have ok2: "catchResponseErrors ?nohdr = Inr ()" by code_simp
  have ok3: "catchResponseErrors ?nojson = Inr ()" by code_simp
  have h2: "headers ?nohdr ''last-modified-ms'' = None"
    by (simp add: example_response_def)
  have h3: "JSON_parse (response_text ?nojson) = None" by code_simp
  have e2: "\<exists>m. parseGraffitiObjectResponse ?D ?nohdr ?l True = Inl (Error (JString m))"
    using strict_response_parsing[OF ok2, where D = ?D and loc = ?l and isGet = True,
        THEN conjunct1] h2 by blast
  have e3: "\<exists>m. parseGraffitiObjectResponse ?D ?nojson ?l True = Inl (Error (JString m))"
    using strict_response_parsing[OF ok3, where D = ?D and loc = ?l and isGet = True,
        THEN conjunct1] h3 by blast
  have v: "parseGraffitiObjectResponse ?D ?good ?l True = Inr (example_object False)"
    by code_simp
  have "\<exists>gmt ms t milli.
          headers ?good ''last-modified'' = Some gmt \<and> headers ?good ''last-modified-ms'' = Some ms \<and>
          ?D gmt = Some t \<and> parseInt ms = Some milli \<and>
          lastModified (example_object False) = t - t mod 1000 + milli \<and>
          JSON_parse (response_text ?good) = Some (value' (example_object False))"
    using strict_response_parsing[OF ok1, where D = ?D and loc = ?l and isGet = True
        and obj = "example_object False", THEN conjunct2, THEN conjunct1] v by blast
  moreover have "headers ?good ''last-modified'' = Some ''Thu, 01 Jan 1970 00:00:01 GMT''"
    and "headers ?good ''last-modified-ms'' = Some ''234''"
    by (simp_all add: example_response_def example_headers_def)
  moreover have "?D ''Thu, 01 Jan 1970 00:00:01 GMT'' = Some 1000"
    by (simp add: example_Date_parse_def)
  moreover have "parseInt ''234'' = Some 234" by code_simp
  ultimately have lm: "lastModified (example_object False) = 1000 - 1000 mod 1000 + 234"
    by fastforce
  from ok1 e2 e3 v lm show ?thesis by blast
qed

text \<open>
  C6. A streaming response with status 204 is a stream that ends at once with no element;
  a response that passes the status mapping (it is ok, or 410) with a status other than
  200 and 204 makes the stream fail with the error about an unexpected status code.
\<close>

theorem streaming_status:
  "(status r = 204 \<longrightarrow> parseJSONLinesResponse (Inr r) src lineParser = ([], None)) \<and>
   (catchResponseErrors r = Inr () \<and> status r \<noteq> 200 \<and> status r \<noteq> 204 \<longrightarrow>
      parseJSONLinesResponse (Inr r) src lineParser
        = ([], Some (Error (JString (''Unexpected status code from server: ''
                                      @ show_nat (status r)))))) \<and>
   ((catchResponseErrors r = Inr ()) = (ok r \<or> status r = 410))"
proof (intro conjI impI)
  assume "status r = 204"
  then have "catchResponseErrors r = Inr ()"
    by (simp add: passes_status_mapping ok_def)
  with \<open>status r = 204\<close> show "parseJSONLinesResponse (Inr r) src lineParser = ([], None)"
    by (simp add: parseJSONLinesResponse_def)
next
  assume "catchResponseErrors r = Inr () \<and> status r \<noteq> 200 \<and> status r \<noteq> 204"
  then show "parseJSONLinesResponse (Inr r) src lineParser
        = ([], Some (Error (JString (''Unexpected status code from server: ''
                                      @ show_nat (status r)))))"
    by (simp add: parseJSONLinesResponse_def)
next
  show "(catchResponseErrors r = Inr ()) = (ok r \<or> status r = 410)"
    by (rule passes_status_mapping)
qed

theorem streaming_status_witness:
  "parseJSONLinesResponse (Inr (example_response 204 [] [])) ''https://pod.example''
       (\<lambda>j. Inr j) = ([], None) \<and>
   parseJSONLinesResponse (Inr (example_response 201 [] [''{}''])) ''https://pod.example''
       (\<lambda>j. Inr j) = ([], Some (Error (JString ''Unexpected status code from server: 201''))) \<and>
   parseJSONLinesResponse (Inr (example_response 410 [] [''{}''])) ''https://pod.example''
       (\<lambda>j. Inr j) = ([], Some (Error (JString ''Unexpected status code from server: 410'')))"
proof -
  let ?p = "\<lambda>j :: json. (Inr j :: error + json)"
  have s1: "status (example_response 204 [] []) = 204"
    and s2: "status (example_response 201 [] [''{}'']) = 201"
    and s3: "status (example_response 410 [] [''{}'']) = 410"
    by (simp_all add: example_response_def)
  have c2: "catchResponseErrors (example_response 201 [] [''{}'']) = Inr ()"
    and c3: "catchResponseErrors (example_response 410 [] [''{}'']) = Inr ()"
    by code_simp+
  have n2: "show_nat 201 = ''201''" and n3: "show_nat 410 = ''410''"
    by code_simp+
  have a: "parseJSONLinesResponse (Inr (example_response 204 [] [])) ''https://pod.example'' ?p
             = ([], None)"
    using streaming_status[where r = "example_response 204 [] []"] s1 by blast
  have b: "parseJSONLinesResponse (Inr (example_response 201 [] [''{}''])) ''https://pod.example'' ?p
             = ([], Some (Error (JString ''Unexpected status code from server: 201'')))"
    using streaming_status[where r = "example_response 201 [] [''{}'']"
        and src = "''https://pod.example''" and lineParser = ?p] s2 c2 n2 by simp
  have c: "parseJSONLinesResponse (Inr (example_response 410 [] [''{}''])) ''https://pod.example'' ?p
             = ([], Some (Error (JString ''Unexpected status code from server: 410'')))"
    using streaming_status[where r = "example_response 410 [] [''{}'']"
        and src = "''https://pod.example''" and lineParser = ?p] s3 c3 n3 by simp
  from a b c show ?thesis by blast
qed

text \<open>
  C9. A \<^verbatim>\<open>put\<close>, \<^verbatim>\<open>patch\<close> or \<^verbatim>\<open>delete\<close> that resolves has recorded its change (the new
  object or the patch, with the previous object returned) in the Local Change Cache when it
  returns; one that fails leaves the cache as it was; \<^verbatim>\<open>get\<close> never changes it.
\<close>

theorem local_change_cache:
  "(GraffitiClient_put env this object target session = (Inr old, this')
      \<longrightarrow> localChanges this' = localChanges_put env (localChanges this) object old) \<and>
   (GraffitiClient_put env this object target session = (Inl e, this')
      \<longrightarrow> localChanges this' = localChanges this) \<and>
   (GraffitiClient_patch env this p l session = (Inr old, this')
      \<longrightarrow> localChanges this' = localChanges_patch env (localChanges this) p old) \<and>
   (GraffitiClient_patch env this p l session = (Inl e, this')
      \<longrightarrow> localChanges this' = localChanges this) \<and>
   (GraffitiClient_delete env this l session = (Inr old, this')
      \<longrightarrow> localChanges this' = localChanges_delete env (localChanges this) old) \<and>
   (GraffitiClient_delete env this l session = (Inl e, this')
      \<longrightarrow> localChanges this' = localChanges this) \<and>
   localChanges (snd (GraffitiClient_get env this l session)) = localChanges this"
proof -
  have g: "localChanges (snd (GraffitiClient_get env this l session)) = localChanges this"
    using get_result[of env this l session] by (metis prod.collapse)
  have p1: "GraffitiClient_put env this object target session = (Inr old, this')
      \<longrightarrow> localChanges this' = localChanges_put env (localChanges this) object old"
    using put_result[of env this object target session old this'] by auto
  have p2: "GraffitiClient_put env this object target session = (Inl e, this')
      \<longrightarrow> localChanges this' = localChanges this"
    using put_failure[of env this object target session e this'] by auto
  have a1: "GraffitiClient_patch env this p l session = (Inr old, this')
      \<longrightarrow> localChanges this' = localChanges_patch env (localChanges this) p old"
    using patch_result[of env this p l session old this'] by auto
  have a2: "GraffitiClient_patch env this p l session = (Inl e, this')
      \<longrightarrow> localChanges this' = localChanges this"
    using patch_failure[of env this p l session e this'] by auto
  have d1: "GraffitiClient_delete env this l session = (Inr old, this')
      \<longrightarrow> localChanges this' = localChanges_delete env (localChanges this) old"
    using delete_result[of env this l session old this'] by auto
  have d2: "GraffitiClient_delete env this l session = (Inl e, this')
      \<longrightarrow> localChanges this' = localChanges this"
    using delete_failure[of env this l session e this'] by auto
  from g p1 p2 a1 a2 d1 d2 show ?thesis by simp
qed

theorem local_change_cache_witness:
  "(\<exists>this'. GraffitiClient_put (example_environment (example_response 200 example_headers [''{}'']))
                example_client example_local_object example_target None
              = (Inr (example_object True), this') \<and>
            localChanges this' = [PutChange example_local_object (example_object True)]) \<and>
   (\<exists>this' e. GraffitiClient_put (example_environment (example_response 404 example_headers [''{}'']))
                example_client example_local_object example_target None = (Inl e, this') \<and>
            localChanges this' = []) \<and>
   (\<exists>this'. GraffitiClient_patch (example_environment (example_response 200 example_headers [''{}'']))
                example_client example_patch (Location example_location) None
              = (Inr (example_object True), this') \<and>
            localChanges this' = [PatchChange example_patch (example_object True)]) \<and>
   (\<exists>this'. GraffitiClient_delete (example_environment (example_response 200 example_headers [''{}'']))
                example_client (Location example_location) None
              = (Inr (example_object True), this') \<and>
            localChanges this' = [DeleteChange (example_object True)])"
proof -
  let ?E = "example_environment (example_response 200 example_headers [''{}''])"
  let ?F = "example_environment (example_response 404 example_headers [''{}''])"
  let ?e = "GraffitiErrorNotFound (JString ''{}'')"
  have p: "GraffitiClient_put ?E example_client example_local_object example_target None
             = (Inr (example_object True),
                \<lparr> delegation = (), localChanges = [PutChange example_local_object (example_object True)] \<rparr>)"
    by code_simp
  have f: "GraffitiClient_put ?F example_client example_local_object example_target None
             = (Inl ?e, example_client)"
    by code_simp
  have a: "GraffitiClient_patch ?E example_client example_patch (Location example_location) None
             = (Inr (example_object True),
                \<lparr> delegation = (), localChanges = [PatchChange example_patch (example_object True)] \<rparr>)"
    by code_simp
  have d: "GraffitiClient_delete ?E example_client (Location example_location) None
             = (Inr (example_object True),
                \<lparr> delegation = (), localChanges = [DeleteChange (example_object True)] \<rparr>)"
    by code_simp
  have c0: "localChanges example_client = []"
    by (simp add: example_client_def)
  have lp: "localChanges_put ?E [] example_local_object (example_object True)
              = [PutChange example_local_object (example_object True)]"
    and la: "localChanges_patch ?E [] example_patch (example_object True)
              = [PatchChange example_patch (example_object True)]"
    and ld: "localChanges_delete ?E [] (example_object True) = [DeleteChange (example_object True)]"
    by (simp_all add: example_environment_def)
  have r1: "localChanges \<lparr> delegation = (), localChanges = [PutChange example_local_object (example_object True)] \<rparr>
              = [PutChange example_local_object (example_object True)]"
    using local_change_cache[where env = ?E and this = example_client
        and object = example_local_object and target = example_target and session = None
        and old = "example_object True"
        and this' = "\<lparr> delegation = (), localChanges = [PutChange example_local_object (example_object True)] \<rparr>"]
      p c0 lp by simp
  have r2: "localChanges example_client = []"
    using local_change_cache[where env = ?F and this = example_client
        and object = example_local_object and target = example_target and session = None
        and e = ?e and this' = example_client] f c0 by simp
  from p f a d r1 r2 show ?thesis by simp
qed

text \<open>
  C10. In an object parsed from a response, an absent \<^verbatim>\<open>channels\<close> header gives the empty
  list of channels and an absent \<^verbatim>\<open>allowed\<close> header gives no access list; a header that
  is present is split at its commas (the segments hold no comma, and joined by commas they
  are the header), the empty segments are dropped and the others are percent-decoded in
  order, so that an empty header gives the empty list.
\<close>

theorem header_arrays:
  "(parseGraffitiObjectResponse D r loc isGet = Inr obj \<longrightarrow>
      (headers r ''channels'' = None \<longrightarrow> channels obj = []) \<and>
      (headers r ''allowed'' = None \<longrightarrow> allowed obj = None) \<and>
      (\<forall>h. headers r ''channels'' = Some h \<longrightarrow>
            list_all2 (\<lambda>s d. decodeURIComponent s = Some d)
              (filter (\<lambda>s. s \<noteq> []) (split h CHR '','')) (channels obj)) \<and>
      (\<forall>h. headers r ''allowed'' = Some h \<longrightarrow>
            (\<exists>xs. allowed obj = Some xs \<and>
               list_all2 (\<lambda>s d. decodeURIComponent s = Some d)
                 (filter (\<lambda>s. s \<noteq> []) (split h CHR '','')) xs)) \<and>
      (headers r ''channels'' = Some [] \<longrightarrow> channels obj = []) \<and>
      (headers r ''allowed'' = Some [] \<longrightarrow> allowed obj = Some [])) \<and>
   join (split h CHR '','') CHR '','' = h \<and>
   (\<forall>x \<in> set (split h CHR '',''). CHR '','' \<notin> set x)"
proof (intro conjI impI)
  assume ok: "parseGraffitiObjectResponse D r loc isGet = Inr obj"
  from parse_success[OF ok] obtain chs alw where
    c: "parseEncodedStringArrayHeader (headers r ''channels'') [] = Inr chs"
       "channels obj = (case chs of Inl xs \<Rightarrow> xs | Inr nullValue \<Rightarrow> nullValue)"
    and a: "parseEncodedStringArrayHeader (headers r ''allowed'') () = Inr alw"
       "allowed obj = (case alw of Inl xs \<Rightarrow> Some xs | Inr _ \<Rightarrow> None)"
    by auto
  show "headers r ''channels'' = None \<Longrightarrow> channels obj = []"
    using c by (auto simp: header_array_cases(1))
  show "headers r ''allowed'' = None \<Longrightarrow> allowed obj = None"
    using a by (auto simp: header_array_cases(1))
  show chan: "\<forall>h. headers r ''channels'' = Some h \<longrightarrow>
            list_all2 (\<lambda>s d. decodeURIComponent s = Some d)
              (filter (\<lambda>s. s \<noteq> []) (split h CHR '','')) (channels obj)"
    using c header_array_cases(2) by fastforce
  show alwd: "\<forall>h. headers r ''allowed'' = Some h \<longrightarrow>
            (\<exists>xs. allowed obj = Some xs \<and>
               list_all2 (\<lambda>s d. decodeURIComponent s = Some d)
                 (filter (\<lambda>s. s \<noteq> []) (split h CHR '','')) xs)"
    using a header_array_cases(2) by fastforce
  show "headers r ''channels'' = Some [] \<Longrightarrow> channels obj = []"
    using chan by (auto simp: split_empty)
  show "headers r ''allowed'' = Some [] \<Longrightarrow> allowed obj = Some []"
    using alwd by (auto simp: split_empty)
next
  show "join (split h CHR '','') CHR '','' = h"
    by (simp add: split_def join_split_from)
  show "\<forall>x \<in> set (split h CHR '',''). CHR '','' \<notin> set x"
    using split_from_no_separator[of "CHR '',''" "[]" h] by (simp add: split_def)
qed

theorem header_arrays_witness:
  "parseGraffitiObjectResponse example_Date_parse
      (example_response 200 example_headers [''{}'']) example_location True
     = Inr (example_object False) \<and>
   headers (example_response 200 example_headers [''{}'']) ''channels'' = Some ''a,,b%20c'' \<and>
   split ''a,,b%20c'' CHR '','' = [''a'', [], ''b%20c''] \<and>
   decodeURIComponent ''b%20c'' = Some ''b c'' \<and>
   channels (example_object False) = [''a'', ''b c''] \<and>
   allowed (example_object False) = None \<and>
   join [''a'', [], ''b%20c''] CHR '','' = ''a,,b%20c''"
proof -
  let ?r = "example_response 200 example_headers [''{}'']"
  have v: "parseGraffitiObjectResponse example_Date_parse ?r example_location True
             = Inr (example_object False)"
    by code_simp
  have hc: "headers ?r ''channels'' = Some ''a,,b%20c''"
    and ha: "headers ?r ''allowed'' = None"
    by (simp_all add: example_response_def example_headers_def)
  have sp: "split ''a,,b%20c'' CHR '','' = [''a'', [], ''b%20c'']" by code_simp
  have d1: "decodeURIComponent ''a'' = Some ''a''" and d2: "decodeURIComponent ''b%20c'' = Some ''b c''"
    by code_simp+
  note th = header_arrays[where D = example_Date_parse and r = ?r and loc = example_location
      and isGet = True and obj = "example_object False" and h = "''a,,b%20c''"]
  have "list_all2 (\<lambda>s d. decodeURIComponent s = Some d)
          (filter (\<lambda>s. s \<noteq> []) (split ''a,,b%20c'' CHR '','')) (channels (example_object False))"
    using th v hc by blast
  then have ch: "channels (example_object False) = [''a'', ''b c'']"
    using d1 d2 by (auto simp: sp list_all2_Cons1)
  have al: "allowed (example_object False) = None"
    using th v ha by blast
  have jn: "join [''a'', [], ''b%20c''] CHR '','' = ''a,,b%20c''"
    using th sp by simp
  from v hc sp d2 ch al jn show ?thesis by blast
qed

text \<open>
  C7. \<^verbatim>\<open>get\<close> goes to the remote store exactly when the source of the location starts with
  "http", and for a local location the result does not depend on the remote store;
  \<^verbatim>\<open>put\<close>, \<^verbatim>\<open>patch\<close>, \<^verbatim>\<open>delete\<close>, \<^verbatim>\<open>recoverOrphans\<close> and \<^verbatim>\<open>channelStats\<close> go to the
  remote store exactly when the session exists, its actor starts with "http" and it has a
  \<^verbatim>\<open>fetch\<close>, and to the local store otherwise.
\<close>

theorem routing:
  "(unpack l = Inr (loc, uri) \<and> startsWith (source loc) ''http'' \<longrightarrow>
      GraffitiRemoteAndLocal_get unpack this l sch s
        = Inr (get (remoteGraffiti this) l sch (if isRemoteSession s then s else None))) \<and>
   (unpack l = Inr (loc, uri) \<and> \<not> startsWith (source loc) ''http'' \<longrightarrow>
      GraffitiRemoteAndLocal_get unpack this l sch s = Inr (get (localGraffiti this) l sch s) \<and>
      GraffitiRemoteAndLocal_get unpack (this \<lparr> remoteGraffiti := other \<rparr>) l sch s
        = GraffitiRemoteAndLocal_get unpack this l sch s) \<and>
   (isRemoteSession s \<longleftrightarrow>
      (\<exists>a. s = Some a \<and> startsWith (session_actor a) ''http'' \<and> session_fetch a \<noteq> None)) \<and>
   (isRemoteSession s \<longrightarrow>
      GraffitiRemoteAndLocal_put this object s = put (remoteGraffiti this) object s \<and>
      GraffitiRemoteAndLocal_patch this p l s = patch (remoteGraffiti this) p l s \<and>
      GraffitiRemoteAndLocal_delete this l s = delete (remoteGraffiti this) l s \<and>
      GraffitiRemoteAndLocal_recoverOrphans this sch s = recoverOrphans (remoteGraffiti this) sch s \<and>
      GraffitiRemoteAndLocal_channelStats this s = channelStats (remoteGraffiti this) s) \<and>
   (\<not> isRemoteSession s \<longrightarrow>
      GraffitiRemoteAndLocal_put this object s = put (localGraffiti this) object s \<and>
      GraffitiRemoteAndLocal_patch this p l s = patch (localGraffiti this) p l s \<and>
      GraffitiRemoteAndLocal_delete this l s = delete (localGraffiti this) l s \<and>
      GraffitiRemoteAndLocal_recoverOrphans this sch s = recoverOrphans (localGraffiti this) sch s \<and>
      GraffitiRemoteAndLocal_channelStats this s = channelStats (localGraffiti this) s)"
proof (intro conjI impI)
  show "isRemoteSession s \<longleftrightarrow>
      (\<exists>a. s = Some a \<and> startsWith (session_actor a) ''http'' \<and> session_fetch a \<noteq> None)"
    by (cases s) (auto simp: isRemoteSession_def)
qed (auto simp: GraffitiRemoteAndLocal_get_def isRemoteLocation_def
       GraffitiRemoteAndLocal_put_def GraffitiRemoteAndLocal_patch_def
       GraffitiRemoteAndLocal_delete_def GraffitiRemoteAndLocal_recoverOrphans_def
       GraffitiRemoteAndLocal_channelStats_def)

theorem routing_witness:
  "GraffitiRemoteAndLocal_get example_unpack example_router (Location example_location) () local_session
     = Inr ''remote'' \<and>
   GraffitiRemoteAndLocal_get example_unpack example_router (Location local_location) () remote_session
     = Inr ''local'' \<and>
   isRemoteSession remote_session \<and> \<not> isRemoteSession local_session \<and>
   \<not> isRemoteSession (None :: unit session option) \<and>
   GraffitiRemoteAndLocal_put example_router () remote_session = ''remote'' \<and>
   GraffitiRemoteAndLocal_put example_router () local_session = ''local'' \<and>
   GraffitiRemoteAndLocal_patch example_router () (Location example_location) local_session = ''local'' \<and>
   GraffitiRemoteAndLocal_delete example_router (Location local_location) remote_session = ''remote'' \<and>
   GraffitiRemoteAndLocal_channelStats example_router remote_session = ''remote'' \<and>
   GraffitiRemoteAndLocal_channelStats example_router None = ''local''"
proof -
  have u1: "example_unpack (Location example_location)
              = Inr (example_location, source example_location @ ''/'' @ name example_location)"
    and u2: "example_unpack (Location local_location)
              = Inr (local_location, source local_location @ ''/'' @ name local_location)"
    by (simp_all add: example_unpack_def)
  have h1: "startsWith (source example_location) ''http''"
    and h2: "\<not> startsWith (source local_location) ''http''"
    by (simp_all add: example_location_def local_location_def startsWith_def)
  have r: "isRemoteSession remote_session"
    unfolding routing[where s = remote_session, THEN conjunct2, THEN conjunct2, THEN conjunct1]
    by (simp add: remote_session_def startsWith_def)
  have nl: "\<not> isRemoteSession local_session"
    unfolding routing[where s = local_session, THEN conjunct2, THEN conjunct2, THEN conjunct1]
    by (simp add: local_session_def startsWith_def)
  have nn: "\<not> isRemoteSession (None :: unit session option)"
    unfolding routing[where s = "None :: unit session option",
        THEN conjunct2, THEN conjunct2, THEN conjunct1]
    by simp
  have st: "get (remoteGraffiti example_router) = (\<lambda>l sch s. ''remote'')"
       "get (localGraffiti example_router) = (\<lambda>l sch s. ''local'')"
       "put (remoteGraffiti example_router) = (\<lambda>object s. ''remote'')"
       "put (localGraffiti example_router) = (\<lambda>object s. ''local'')"
       "patch (localGraffiti example_router) = (\<lambda>p l s. ''local'')"
       "delete (remoteGraffiti example_router) = (\<lambda>l s. ''remote'')"
       "channelStats (remoteGraffiti example_router) = (\<lambda>s. ''remote'')"
       "channelStats (localGraffiti example_router) = (\<lambda>s. ''local'')"
    by (simp_all add: example_router_def example_store_def)
  have g1: "GraffitiRemoteAndLocal_get example_unpack example_router (Location example_location) ()
              local_session = Inr ''remote''"
    using routing[where unpack = example_unpack and l = "Location example_location"
        and loc = example_location and this = example_router and sch = "()" and s = local_session,
        THEN conjunct1]
      u1 h1 by (simp add: st)
  have g2: "GraffitiRemoteAndLocal_get example_unpack example_router (Location local_location) ()
              remote_session = Inr ''local''"
    using routing[where unpack = example_unpack and l = "Location local_location"
        and loc = local_location and this = example_router and sch = "()" and s = remote_session,
        THEN conjunct2, THEN conjunct1]
      u2 h2 by (simp add: st)
  have w1: "GraffitiRemoteAndLocal_put example_router () remote_session = ''remote''"
       "GraffitiRemoteAndLocal_delete example_router (Location local_location) remote_session = ''remote''"
       "GraffitiRemoteAndLocal_channelStats example_router remote_session = ''remote''"
    using routing[where this = example_router and s = remote_session and object = "()"
        and l = "Location local_location",
        THEN conjunct2, THEN conjunct2, THEN conjunct2, THEN conjunct1] r by (simp_all add: st)
  have w2: "GraffitiRemoteAndLocal_put example_router () local_session = ''local''"
       "GraffitiRemoteAndLocal_patch example_router () (Location example_location) local_session = ''local''"
    using routing[where this = example_router and s = local_session and object = "()"
        and p = "()" and l = "Location example_location",
        THEN conjunct2, THEN conjunct2, THEN conjunct2, THEN conjunct2] nl by (simp_all add: st)
  have w3: "GraffitiRemoteAndLocal_channelStats example_router None = ''local''"
    using routing[where this = example_router and s = "None :: unit session option",
        THEN conjunct2, THEN conjunct2, THEN conjunct2, THEN conjunct2] nn
    by (simp add: st)
  from g1 g2 r nl nn w1 w2 w3 show ?thesis by simp
qed

text \<open>
  C8. \<^verbatim>\<open>discover\<close> on the router opens the local and the remote iterator, and the merged
  iterator gives the results of the local one, in their order and unchanged (an error
  element of the local store is one of them), until the local one is done, and from then
  on the results of the remote one: when the first \<open>n\<close> local results are not done and
  the local iterator is done from there on, the first \<open>n + k\<close> merged results are those
  \<open>n\<close> followed by the first \<open>k\<close> remote results.
\<close>

theorem discover_merge:
  fixes this :: "('obj, 'sch, 'pat, 'f, 'r, 's, 'a, 'cs) GraffitiRemoteAndLocal"
  shows
  "state (GraffitiRemoteAndLocal_discover this chans sch s)
     = (state (discover (localGraffiti this) chans sch s),
        state (discover (remoteGraffiti this) chans sch (if isRemoteSession s then s else None))) \<and>
   (pull n (iter_next (discover (localGraffiti this) chans sch s))
         (state (discover (localGraffiti this) chans sch s)) = (rs, sl') \<and>
    IterDone \<notin> set rs \<and>
    stays_done (iter_next (discover (localGraffiti this) chans sch s)) sl'
    \<longrightarrow> fst (pull (n + k) (iter_next (GraffitiRemoteAndLocal_discover this chans sch s))
               (state (GraffitiRemoteAndLocal_discover this chans sch s)))
          = rs @ fst (pull k
                 (iter_next (discover (remoteGraffiti this) chans sch
                               (if isRemoteSession s then s else None)))
                 (state (discover (remoteGraffiti this) chans sch
                               (if isRemoteSession s then s else None)))))"
proof -
  let ?L = "discover (localGraffiti this) chans sch s"
  let ?R = "discover (remoteGraffiti this) chans sch (if isRemoteSession s then s else None)"
  let ?M = "GraffitiRemoteAndLocal_discover this chans sch s"
  have st: "state ?M = (state ?L, state ?R)" and nx: "iter_next ?M = merged_next ?L ?R"
    by (simp_all add: GraffitiRemoteAndLocal_discover_def Let_def)
  have "fst (pull (n + k) (merged_next ?L ?R) (state ?L, state ?R))
          = rs @ fst (pull k (iter_next ?R) (state ?R))"
    if a: "pull n (iter_next ?L) (state ?L) = (rs, sl')" and b: "IterDone \<notin> set rs"
      and c: "stays_done (iter_next ?L) sl'"
  proof -
    have "pull n (merged_next ?L ?R) (state ?L, state ?R) = (rs, (sl', state ?R))"
      using a b by (rule pull_merged_local)
    then show ?thesis
      using pull_merged_remote[OF c, of k ?R "state ?R"]
      by (simp add: pull_append_fst)
  qed
  with st nx show ?thesis by simp
qed

theorem discover_merge_witness:
  "fst (pull 5 (iter_next (GraffitiRemoteAndLocal_discover example_router [] () local_session))
              (state (GraffitiRemoteAndLocal_discover example_router [] () local_session)))
     = [IterValue (Value 1), IterValue (Failure (Error (JString ''disk'')) ''local''),
        IterValue (Value 2), IterValue (Value 3), IterDone]"
proof -
  let ?ls = "[Value 1, Failure (Error (JString ''disk'')) ''local''] :: nat stream_element list"
  let ?rs = "[Value 2, Value 3] :: nat stream_element list"
  let ?L = "discover (localGraffiti example_router) [] () local_session"
  let ?R = "discover (remoteGraffiti example_router) [] ()
              (if isRemoteSession local_session then local_session else None)"
  have L: "iter_next ?L = list_next" "state ?L = ?ls"
    and R: "iter_next ?R = list_next" "state ?R = ?rs"
    by (simp_all add: example_router_def example_store_def)
  have a: "pull 2 (iter_next ?L) (state ?L) = (map IterValue ?ls, [])"
    using pull_list[of ?ls] by (simp add: L numeral_2_eq_2)
  have b: "IterDone \<notin> set (map IterValue ?ls)"
    by simp
  have c: "stays_done (iter_next ?L) []"
    by (simp add: L stays_done_list)
  have r: "fst (pull 3 (iter_next ?R) (state ?R)) = [IterValue (Value 2), IterValue (Value 3), IterDone]"
    unfolding R by code_simp
  from discover_merge[where this = example_router and chans = "[]" and sch = "()"
      and s = local_session and n = 2 and k = 3 and rs = "map IterValue ?ls" and sl' = "[]",
      THEN conjunct2] a b c r
  show ?thesis by simp
qed

text \<open>
  C4. However a byte stream is cut into chunks, the wire parser yields what it yields
  for the stream as one chunk; and on status 200 that is one decoded record per line of
  the stream in order, the lines being the runs of bytes before each newline and, when
  it is not empty, the fragment after the last one.
\<close>

theorem chunking_invariance:
  "parseJSONLinesResponse (Inr (r \<lparr> body := Some chunks \<rparr>)) src lineParser
     = parseJSONLinesResponse (Inr (r \<lparr> body := Some [concat chunks] \<rparr>)) src lineParser \<and>
   (status r = 200 \<longrightarrow>
      parseJSONLinesResponse (Inr (r \<lparr> body := Some chunks \<rparr>)) src lineParser
        = (map (\<lambda>l. parseJSONLine (decoder_decode l) lineParser src) (wire_lines (concat chunks)),
           None))"
proof -
  have rl: "read_loop [] cs = spec_lines [] (concat cs)" for cs
    by (rule read_loop_spec) simp
  have c: "catchResponseErrors (r \<lparr> body := Some chunks \<rparr>)
             = catchResponseErrors (r \<lparr> body := Some [concat chunks] \<rparr>)"
    by (rule catch_same_text) (simp_all add: response_text_def)
  have one: "parseJSONLinesResponse (Inr (r \<lparr> body := Some chunks \<rparr>)) src lineParser
     = parseJSONLinesResponse (Inr (r \<lparr> body := Some [concat chunks] \<rparr>)) src lineParser"
    unfolding parseJSONLinesResponse_def
    by (simp add: rl c del: read_loop.simps cong: sum.case_cong if_cong)
  have two: "parseJSONLinesResponse (Inr (r \<lparr> body := Some chunks \<rparr>)) src lineParser
        = (map (\<lambda>l. parseJSONLine (decoder_decode l) lineParser src) (wire_lines (concat chunks)),
           None)" if "status r = 200"
  proof -
    have "catchResponseErrors (r \<lparr> body := Some chunks \<rparr>) = Inr ()"
      using that by (simp add: catchResponseErrors_def ok_def)
    then show ?thesis
      using that unfolding parseJSONLinesResponse_def
      by (simp add: rl wire_lines_def case_prod_unfold Let_def del: read_loop.simps)
  qed
  from one two show ?thesis by blast
qed

theorem chunking_invariance_witness:
  "parseJSONLinesResponse (Inr (example_response 200 [] example_chunks)) ''https://pod.example''
       (\<lambda>j. Inr j)
     = ([Value (JObject []), Failure SyntaxError ''https://pod.example'', Value JNull], None) \<and>
   concat example_chunks = ''{}'' @ [CHR 0x0A] @ ''[1,2'' @ [CHR 0x0A] @ ''null'' \<and>
   wire_lines (concat example_chunks) = [''{}'', ''[1,2'', ''null'']"
proof -
  let ?p = "\<lambda>j :: json. (Inr j :: error + json)"
  let ?r = "example_response 200 [] []"
  have r1: "?r \<lparr> body := Some example_chunks \<rparr> = example_response 200 [] example_chunks"
    and r2: "?r \<lparr> body := Some [concat example_chunks] \<rparr>
               = example_response 200 [] [concat example_chunks]"
    by (simp_all add: example_response_def)
  have c: "concat example_chunks = ''{}'' @ [CHR 0x0A] @ ''[1,2'' @ [CHR 0x0A] @ ''null''"
    by (simp add: example_chunks_def)
  have w: "wire_lines (concat example_chunks) = [''{}'', ''[1,2'', ''null'']"
    by code_simp
  have st: "status ?r = 200"
    by (simp add: example_response_def)
  have els: "map (\<lambda>l. parseJSONLine (decoder_decode l) ?p ''https://pod.example'')
               [''{}'', ''[1,2'', ''null'']
             = [Value (JObject []), Failure SyntaxError ''https://pod.example'', Value JNull]"
    by code_simp
  have whole: "parseJSONLinesResponse (Inr (example_response 200 [] [concat example_chunks]))
               ''https://pod.example'' ?p
             = ([Value (JObject []), Failure SyntaxError ''https://pod.example'', Value JNull], None)"
    using chunking_invariance[where r = ?r and chunks = "[concat example_chunks]"
        and src = "''https://pod.example''" and lineParser = ?p, THEN conjunct2] st w els
    by (simp add: r2)
  have "parseJSONLinesResponse (Inr (example_response 200 [] example_chunks))
          ''https://pod.example'' ?p
          = parseJSONLinesResponse (Inr (example_response 200 [] [concat example_chunks]))
              ''https://pod.example'' ?p"
    using chunking_invariance[where r = ?r and chunks = example_chunks
        and src = "''https://pod.example''" and lineParser = ?p, THEN conjunct1]
    by (simp only: r1 r2)
  with whole c w show ?thesis by simp
qed

text \<open>
  C5. In a streaming query over several pods, every element of every pod's sub-stream is
  delivered, in the pod's order. A pod that answers with status 200 contributes one element
  per line: \<^verbatim>\<open>{error, source: pod}\<close> for a line that is not JSON or on which the callback
  throws, the value otherwise; the callbacks of \<^verbatim>\<open>listChannels\<close>, \<^verbatim>\<open>listOrphans\<close> and
  \<^verbatim>\<open>discover\<close> throw on a record that fails the fixed shape, and the last on an object that
  fails the caller's schema or is not authorized by its owner's delegation. A pod whose
  stream throws contributes the one element \<^verbatim>\<open>{error, source: pod}\<close>. The elements of the
  other lines and of the other pods do not depend on the failure.
\<close>

theorem in_band_failures:
  "(streamMultiple fetch_pod on_record pods out \<longrightarrow>
      (\<forall>i < length pods. subseq (pod_stream fetch_pod on_record (pods ! i)) out) \<and>
      length out = sum_list (map (\<lambda>p. length (pod_stream fetch_pod on_record p)) pods)) \<and>
   (fetch_pod p = Inr r \<and> status r = 200 \<and> body r = Some chunks \<longrightarrow>
      pod_stream fetch_pod on_record p
        = map (\<lambda>l. parseJSONLine (decoder_decode l) (\<lambda>j. on_record j p) p)
            (wire_lines (concat chunks))) \<and>
   (parseJSONLinesResponse (fetch_pod p) p (\<lambda>j. on_record j p) = (els, Some e) \<longrightarrow>
      pod_stream fetch_pod on_record p = [Failure (as_Error e) p]) \<and>
   (JSON_parse line = None \<longrightarrow> parseJSONLine line lineParser p = Failure SyntaxError p) \<and>
   (JSON_parse line = Some j \<and> lineParser j = Inl e \<longrightarrow>
      parseJSONLine line lineParser p = Failure (as_Error e) p) \<and>
   (JSON_parse line = Some j \<and> lineParser j = Inr v \<longrightarrow>
      parseJSONLine line lineParser p = Value v) \<and>
   (\<not> validateChannelResult j \<longrightarrow>
      listChannels_record validateChannelResult j p
        = Inl (Error (JString ''Invalid channel result''))) \<and>
   (\<not> validateOrphanResult j \<longrightarrow>
      listOrphans_record validateOrphanResult j p
        = Inl (Error (JString ''Invalid orphan result''))) \<and>
   (\<not> validateGraffitiObject j \<longrightarrow>
      discover_record validateGraffitiObject validate delegated j p
        = Inl (Error (JString ''Invalid graffiti object''))) \<and>
   (validateGraffitiObject j \<and> \<not> validate \<lparr> partial = j, pod = p \<rparr> \<longrightarrow>
      discover_record validateGraffitiObject validate delegated j p
        = Inl (Error (JString ''Object does match schema''))) \<and>
   (validateGraffitiObject j \<and> validate \<lparr> partial = j, pod = p \<rparr> \<and>
    delegated \<lparr> partial = j, pod = p \<rparr> = Inr False \<longrightarrow>
      discover_record validateGraffitiObject validate delegated j p
        = Inl (Error (JString ''Pod returned an object not authorized by its owner''))) \<and>
   parseJSONLine line (\<lambda>j. listChannels_record validateChannelResult j p) p
     = (case listChannels_line validateChannelResult line p of
          Inl e \<Rightarrow> Failure (as_Error e) p | Inr x \<Rightarrow> Value x) \<and>
   parseJSONLine line (\<lambda>j. listOrphans_record validateOrphanResult j p) p
     = (case listOrphans_line validateOrphanResult line p of
          Inl e \<Rightarrow> Failure (as_Error e) p | Inr x \<Rightarrow> Value x) \<and>
   parseJSONLine line (\<lambda>j. discover_record validateGraffitiObject validate delegated j p) p
     = (case discover_line validateGraffitiObject validate delegated line p of
          Inl e \<Rightarrow> Failure (as_Error e) p | Inr x \<Rightarrow> Value x)"
proof (intro conjI impI)
  assume m: "streamMultiple fetch_pod on_record pods out"
  show "\<forall>i < length pods. subseq (pod_stream fetch_pod on_record (pods ! i)) out"
    using merged_subseq[OF m[unfolded streamMultiple_def]] by simp
  show "length out = sum_list (map (\<lambda>p. length (pod_stream fetch_pod on_record p)) pods)"
    using merged_length[OF m[unfolded streamMultiple_def]] by (simp add: comp_def)
next
  assume "fetch_pod p = Inr r \<and> status r = 200 \<and> body r = Some chunks"
  then show "pod_stream fetch_pod on_record p
        = map (\<lambda>l. parseJSONLine (decoder_decode l) (\<lambda>j. on_record j p) p)
            (wire_lines (concat chunks))"
    using pod_stream_ok by blast
next
  assume "parseJSONLinesResponse (fetch_pod p) p (\<lambda>j. on_record j p) = (els, Some e)"
  then show "pod_stream fetch_pod on_record p = [Failure (as_Error e) p]"
    by (rule pod_stream_failed)
qed (auto simp: parseJSONLine_def as_Error_def listChannels_record_def listOrphans_record_def
       discover_record_def listChannels_line_def listOrphans_line_def discover_line_def Let_def
     split: option.splits sum.splits)

theorem in_band_failures_witness:
  "streamMultiple example_fetch_pod (listChannels_record (\<lambda>j. j \<noteq> JNull))
      [''https://down.example'', ''https://pod.example'']
      [Value \<lparr> partial = JObject [], pod = ''https://pod.example'' \<rparr>,
       Failure TypeError ''https://down.example'',
       Failure SyntaxError ''https://pod.example'',
       Failure (Error (JString ''Invalid channel result'')) ''https://pod.example''] \<and>
   pod_stream example_fetch_pod (listChannels_record (\<lambda>j. j \<noteq> JNull)) ''https://pod.example''
     = [Value \<lparr> partial = JObject [], pod = ''https://pod.example'' \<rparr>,
        Failure SyntaxError ''https://pod.example'',
        Failure (Error (JString ''Invalid channel result'')) ''https://pod.example''] \<and>
   pod_stream example_fetch_pod (listChannels_record (\<lambda>j. j \<noteq> JNull)) ''https://down.example''
     = [Failure TypeError ''https://down.example''] \<and>
   subseq [Value \<lparr> partial = JObject [], pod = ''https://pod.example'' \<rparr>,
           Failure SyntaxError ''https://pod.example'',
           Failure (Error (JString ''Invalid channel result'')) ''https://pod.example'']
      [Value \<lparr> partial = JObject [], pod = ''https://pod.example'' \<rparr>,
       Failure TypeError ''https://down.example'',
       Failure SyntaxError ''https://pod.example'',
       Failure (Error (JString ''Invalid channel result'')) ''https://pod.example'']"
proof -
  let ?on = "listChannels_record (\<lambda>j. j \<noteq> JNull)"
  let ?pod = "''https://pod.example''" and ?down = "''https://down.example''"
  let ?V = "Value \<lparr> partial = JObject [], pod = ?pod \<rparr>"
  let ?Fd = "Failure TypeError ?down :: line_result stream_element"
  let ?Fs = "Failure SyntaxError ?pod :: line_result stream_element"
  let ?Fi = "Failure (Error (JString ''Invalid channel result'')) ?pod :: line_result stream_element"
  let ?out = "[?V, ?Fd, ?Fs, ?Fi]"
  let ?r = "example_response 200 [] example_chunks"
  note th = in_band_failures[where fetch_pod = example_fetch_pod and on_record = ?on]
  have f1: "example_fetch_pod ?pod = Inr ?r" and f2: "example_fetch_pod ?down = Inl TypeError"
    by (simp_all add: example_fetch_pod_def)
  have r: "status ?r = 200" "body ?r = Some example_chunks"
    by (simp_all add: example_response_def)
  have w: "wire_lines (concat example_chunks) = [''{}'', ''[1,2'', ''null'']"
    by code_simp
  have els: "map (\<lambda>l. parseJSONLine (decoder_decode l) (\<lambda>j. ?on j ?pod) ?pod)
               [''{}'', ''[1,2'', ''null''] = [?V, ?Fs, ?Fi]"
    by code_simp
  have ps1: "pod_stream example_fetch_pod ?on ?pod = [?V, ?Fs, ?Fi]"
    using th[where p = ?pod and r = ?r and chunks = example_chunks,
        THEN conjunct2, THEN conjunct1] f1 r w els
    by simp
  have "parseJSONLinesResponse (example_fetch_pod ?down) ?down (\<lambda>j. ?on j ?down)
          = ([], Some TypeError)"
    by (simp add: f2 parseJSONLinesResponse_def)
  then have ps2: "pod_stream example_fetch_pod ?on ?down = [?Fd]"
    using th[where p = ?down and els = "[]" and e = TypeError,
        THEN conjunct2, THEN conjunct2, THEN conjunct1]
    by (simp add: as_Error_def)
  have m4: "merged [[], []] ([] :: line_result stream_element list)"
    by (rule merged_done) simp
  have m3: "merged [[], [?Fi]] [?Fi]"
    using merged_step[where i = 1 and ss = "[[], [?Fi]]" and x = ?Fi and xs = "[]"
        and out = "[]"] m4 by simp
  have m2: "merged [[], [?Fs, ?Fi]] [?Fs, ?Fi]"
    using merged_step[where i = 1 and ss = "[[], [?Fs, ?Fi]]" and x = ?Fs and xs = "[?Fi]"
        and out = "[?Fi]"] m3 by simp
  have m1: "merged [[?Fd], [?Fs, ?Fi]] [?Fd, ?Fs, ?Fi]"
    using merged_step[where i = 0 and ss = "[[?Fd], [?Fs, ?Fi]]" and x = ?Fd and xs = "[]"
        and out = "[?Fs, ?Fi]"] m2 by simp
  have m0: "merged [[?Fd], [?V, ?Fs, ?Fi]] ?out"
    using merged_step[where i = 1 and ss = "[[?Fd], [?V, ?Fs, ?Fi]]" and x = ?V
        and xs = "[?Fs, ?Fi]" and out = "[?Fd, ?Fs, ?Fi]"] m1 by simp
  have sm: "streamMultiple example_fetch_pod ?on [?down, ?pod] ?out"
    using m0 by (simp add: streamMultiple_def ps1 ps2)
  have "\<forall>i < length [?down, ?pod].
          subseq (pod_stream example_fetch_pod ?on ([?down, ?pod] ! i)) ?out"
    using th[where pods = "[?down, ?pod]" and out = ?out, THEN conjunct1] sm by blast
  then have "subseq (pod_stream example_fetch_pod ?on ([?down, ?pod] ! Suc 0)) ?out"
    by (elim allE[where x = "Suc 0"]) simp
  then have sub: "subseq [?V, ?Fs, ?Fi] ?out"
    by (simp add: ps1)
  from sm ps1 ps2 sub show ?thesis by simp
qed

end
